theory Spec2Isabelle
  imports Main "HOL-Library.AList"
begin

section \<open>The transport channel: \<^verbatim>\<open>WebSocketService\<close> (services/ws)\<close>

text \<open>
  The service is a singleton object with seven fields. Its methods create browser
  objects (\<^verbatim>\<open>new WebSocket\<close>), arm timers (\<^verbatim>\<open>setTimeout\<close>), suspend at
  \<^verbatim>\<open>await this.getToken()\<close> and call the registered listeners. All of that is made
  explicit: the state record holds the seven fields of the class and, after them, the
  part of the browser the methods act on (the socket objects, the armed timers, the
  suspended \<^verbatim>\<open>connect\<close> calls, the page location) together with two traces that
  record what was dispatched.
\<close>

type_synonym uid = string
type_synonym gid = string
type_synonym sdp = string
type_synonym candidate = string

text \<open>\<^verbatim>\<open>WebSocket.readyState\<close>: the four values of the browser interface.\<close>

datatype readyState = CONNECTING | OPEN | CLOSING | CLOSED

text \<open>
  The objects handed to \<^verbatim>\<open>send\<close> in this repository, one constructor per object
  literal (\<^verbatim>\<open>user?.id\<close> and the route parameter \<^verbatim>\<open>groupId\<close> may be undefined,
  hence the options). All of them are finite
  trees of strings and booleans, on which \<^verbatim>\<open>JSON.stringify\<close> is total; the frame
  written to a socket is recorded as the object it serialises.
\<close>

datatype out_msg =
    ChatMessage string
  | CallStart string string
  | CallEnd
  | CallAccept string
  | CallDecline
  | ParticipantReady "uid option" "gid option"
  | MuteStatus "uid option" bool "gid option"
  | WebrtcOffer sdp uid "gid option"
  | WebrtcAnswer sdp uid "gid option"
  | WebrtcIce candidate uid "gid option"

text \<open>
  Parsed inbound frames, by their \<^verbatim>\<open>type\<close> discriminator. \<open>InOther t\<close> is any other
  object; \<open>t\<close> is its \<^verbatim>\<open>type\<close>, the empty string when it has none (a falsy value).
\<close>

datatype in_msg =
    InOffer sdp uid
  | InAnswer sdp uid
  | InIce candidate uid
  | UserJoined uid
  | InParticipantReady uid
  | ParticipantsList "uid list option"
  | InMuteStatus uid bool
  | InOther string

fun in_type :: "in_msg \<Rightarrow> string" where
  "in_type (InOffer _ _) = ''webrtc_offer''"
| "in_type (InAnswer _ _) = ''webrtc_answer''"
| "in_type (InIce _ _) = ''webrtc_ice_candidate''"
| "in_type (UserJoined _) = ''user_joined''"
| "in_type (InParticipantReady _) = ''call_participant_ready''"
| "in_type (ParticipantsList _) = ''call_participants_list''"
| "in_type (InMuteStatus _ _) = ''participant_mute_status''"
| "in_type (InOther t) = t"

text \<open>A text frame either parses as JSON or makes \<^verbatim>\<open>JSON.parse\<close> throw.\<close>

datatype frame = Unparsable | Parsed in_msg

text \<open>What \<^verbatim>\<open>emit\<close> passes to a listener.\<close>

datatype payload = NoPayload | Data in_msg | ErrorEvent

text \<open>
  A listener is a function object: it has an identity (\<^verbatim>\<open>indexOf\<close> compares with
  \<^verbatim>\<open>===\<close>) and a body. The body acts on the rest of the application, the world
  \<open>'w\<close>, and either returns or throws; in both cases it may have changed the world.
\<close>

datatype 'w outcome = Returned 'w | Threw 'w

record 'w callback =
  cb_id :: nat
  cb_run :: "payload \<Rightarrow> 'w \<Rightarrow> 'w outcome"

text \<open>
  A socket object: the URL it was created with, its ready state, the frames written to
  it, and the \<^verbatim>\<open>groupId\<close> captured by the four handlers \<^verbatim>\<open>connect\<close> installs on it.
\<close>

record socket =
  sock_url :: string
  sock_state :: readyState
  sock_sent :: "out_msg list"
  sock_group :: gid

record 'w WebSocketService =
  ws :: "nat option"
  reconnectAttempts :: nat
  maxReconnectAttempts :: nat
  reconnectDelay :: nat
  listeners :: "string \<rightharpoonup> 'w callback list"
  isConnecting :: bool
  getToken :: "nat option"
  \<comment> \<open>the browser\<close>
  sockets :: "socket list"
  timers :: "(nat \<times> gid) list"
  awaiting :: "gid list"
  location_protocol :: string
  location_hostname :: string
  rejects_url :: "string \<Rightarrow> bool"
  world :: 'w
  \<comment> \<open>traces\<close>
  emitted :: "string list"
  invoked :: "(string \<times> nat \<times> bool) list"

text \<open>
  \<open>ws\<close> is a handle: the index of the socket in \<open>sockets\<close>. \<open>getToken\<close> is the
  identity of the injected provider. \<open>awaiting\<close> lists the \<^verbatim>\<open>connect\<close> calls suspended
  at \<^verbatim>\<open>await this.getToken()\<close>, \<open>timers\<close> the armed reconnect timers (delay in
  milliseconds, captured group). \<open>rejects_url\<close> says for which URLs the \<^verbatim>\<open>WebSocket\<close>
  constructor throws. \<open>emitted\<close> records every call of \<^verbatim>\<open>emit\<close>, \<open>invoked\<close> every
  listener call (event, listener, whether it threw).
\<close>

definition constructor :: "string \<Rightarrow> string \<Rightarrow> (string \<Rightarrow> bool) \<Rightarrow> 'w \<Rightarrow> 'w WebSocketService" where
  "constructor proto host bad w =
     \<lparr> ws = None, reconnectAttempts = 0, maxReconnectAttempts = 5, reconnectDelay = 1000,
       listeners = Map.empty, isConnecting = False, getToken = None,
       sockets = [], timers = [], awaiting = [],
       location_protocol = proto, location_hostname = host, rejects_url = bad, world = w,
       emitted = [], invoked = [] \<rparr>"

definition setGetToken :: "nat option \<Rightarrow> 'w WebSocketService \<Rightarrow> 'w WebSocketService" where
  "setGetToken fn s = s\<lparr>getToken := fn\<rparr>"

text \<open>\<^verbatim>\<open>this.ws && this.ws.readyState === WebSocket.OPEN\<close>\<close>

definition isConnected :: "'w WebSocketService \<Rightarrow> bool" where
  "isConnected s =
     (case ws s of None \<Rightarrow> False
      | Some i \<Rightarrow> i < length (sockets s) \<and> sock_state (sockets s ! i) = OPEN)"

subsection \<open>Listeners\<close>

definition on :: "string \<Rightarrow> 'w callback \<Rightarrow> 'w WebSocketService \<Rightarrow> 'w WebSocketService" where
  "on event cb s =
     s\<lparr>listeners := (listeners s)(event \<mapsto>
          (case listeners s event of None \<Rightarrow> [] | Some cbs \<Rightarrow> cbs) @ [cb])\<rparr>"

text \<open>\<^verbatim>\<open>indexOf\<close> followed by \<^verbatim>\<open>splice(index, 1)\<close>: the first occurrence goes.\<close>

fun splice_first :: "nat \<Rightarrow> 'w callback list \<Rightarrow> 'w callback list" where
  "splice_first i [] = []"
| "splice_first i (c # cs) = (if cb_id c = i then cs else c # splice_first i cs)"

definition off :: "string \<Rightarrow> 'w callback \<Rightarrow> 'w WebSocketService \<Rightarrow> 'w WebSocketService" where
  "off event cb s =
     (case listeners s event of
        None \<Rightarrow> s
      | Some cbs \<Rightarrow> s\<lparr>listeners := (listeners s)(event \<mapsto> splice_first (cb_id cb) cbs)\<rparr>)"

text \<open>
  The body of the \<^verbatim>\<open>forEach\<close> in \<^verbatim>\<open>emit\<close>: call the listener inside
  \<^verbatim>\<open>try\<close>; the \<^verbatim>\<open>catch\<close> logs and goes on with the next one.
\<close>

definition call_listener :: "string \<Rightarrow> payload \<Rightarrow> 'w callback \<Rightarrow> 'w WebSocketService \<Rightarrow> 'w WebSocketService" where
  "call_listener event d cb s =
     (case cb_run cb d (world s) of
        Returned w \<Rightarrow> s\<lparr>world := w, invoked := invoked s @ [(event, cb_id cb, False)]\<rparr>
      | Threw w \<Rightarrow> s\<lparr>world := w, invoked := invoked s @ [(event, cb_id cb, True)]\<rparr>)"

fun forEach_listener :: "string \<Rightarrow> payload \<Rightarrow> 'w callback list \<Rightarrow> 'w WebSocketService \<Rightarrow> 'w WebSocketService" where
  "forEach_listener event d [] s = s"
| "forEach_listener event d (cb # cbs) s = forEach_listener event d cbs (call_listener event d cb s)"

definition emit :: "string \<Rightarrow> payload \<Rightarrow> 'w WebSocketService \<Rightarrow> 'w WebSocketService" where
  "emit event d s =
     (let s1 = s\<lparr>emitted := emitted s @ [event]\<rparr> in
      case listeners s1 event of
        None \<Rightarrow> s1
      | Some cbs \<Rightarrow> forEach_listener event d cbs s1)"

subsection \<open>Connecting and reconnecting\<close>

definition wsUrl :: "'w WebSocketService \<Rightarrow> gid \<Rightarrow> string \<Rightarrow> string" where
  "wsUrl s groupId token =
     (let wsProtocol = (if location_protocol s = ''https:'' then ''wss:'' else ''ws:'');
          hostname = location_hostname s;
          wsHost = (if hostname = ''localhost'' \<or> hostname = ''127.0.0.1''
                    then ''localhost:8000'' else hostname @ '':8000'')
      in wsProtocol @ ''//'' @ wsHost @ ''/ws/'' @ groupId @
         (if token \<noteq> [] then ''?token='' @ token else []))"

text \<open>
  The rest of the \<^verbatim>\<open>try\<close> block of \<^verbatim>\<open>connect\<close>, from the URL on. When the
  constructor throws, the \<^verbatim>\<open>catch\<close> resets \<open>isConnecting\<close> and \<open>this.ws\<close> keeps its
  old value.
\<close>

definition open_socket :: "gid \<Rightarrow> string \<Rightarrow> 'w WebSocketService \<Rightarrow> 'w WebSocketService" where
  "open_socket groupId token s =
     (let u = wsUrl s groupId token in
      if rejects_url s u then s\<lparr>isConnecting := False\<rparr>
      else s\<lparr>ws := Some (length (sockets s)),
             sockets := sockets s @
               [\<lparr>sock_url = u, sock_state = CONNECTING, sock_sent = [], sock_group = groupId\<rparr>]\<rparr>)"

text \<open>
  \<^verbatim>\<open>connect\<close> up to its first suspension point. Without a token provider nothing is
  awaited and the socket is created in the same turn.
\<close>

definition connect :: "gid \<Rightarrow> 'w WebSocketService \<Rightarrow> 'w WebSocketService" where
  "connect groupId s =
     (if isConnecting s \<or> isConnected s then s
      else
        let s1 = s\<lparr>isConnecting := True\<rparr> in
        case getToken s1 of
          Some _ \<Rightarrow> s1\<lparr>awaiting := awaiting s1 @ [groupId]\<rparr>
        | None \<Rightarrow> open_socket groupId [] s1)"

text \<open>The provider's promise of the \<open>k\<close>-th suspended call resolves, or rejects.\<close>

definition token_resolved :: "nat \<Rightarrow> string \<Rightarrow> 'w WebSocketService \<Rightarrow> 'w WebSocketService" where
  "token_resolved k token s =
     (if k < length (awaiting s)
      then open_socket (awaiting s ! k) token
             (s\<lparr>awaiting := take k (awaiting s) @ drop (Suc k) (awaiting s)\<rparr>)
      else s)"

definition token_rejected :: "nat \<Rightarrow> 'w WebSocketService \<Rightarrow> 'w WebSocketService" where
  "token_rejected k s =
     (if k < length (awaiting s)
      then s\<lparr>awaiting := take k (awaiting s) @ drop (Suc k) (awaiting s), isConnecting := False\<rparr>
      else s)"

definition attemptReconnect :: "gid \<Rightarrow> 'w WebSocketService \<Rightarrow> 'w WebSocketService" where
  "attemptReconnect groupId s =
     (if reconnectAttempts s < maxReconnectAttempts s
      then
        let s1 = s\<lparr>reconnectAttempts := reconnectAttempts s + 1\<rparr> in
        s1\<lparr>timers := timers s1 @ [(reconnectDelay s1 * reconnectAttempts s1, groupId)]\<rparr>
      else emit ''reconnect_failed'' NoPayload s)"

text \<open>The four handlers installed on the socket.\<close>

definition onopen :: "'w WebSocketService \<Rightarrow> 'w WebSocketService" where
  "onopen s = emit ''connected'' NoPayload (s\<lparr>isConnecting := False, reconnectAttempts := 0\<rparr>)"

definition onmessage :: "frame \<Rightarrow> 'w WebSocketService \<Rightarrow> 'w WebSocketService" where
  "onmessage f s =
     (case f of
        Unparsable \<Rightarrow> s
      | Parsed d \<Rightarrow>
          let s1 = emit ''message'' (Data d) s in
          if in_type d \<noteq> [] then emit (in_type d) (Data d) s1 else s1)"

definition onerror :: "'w WebSocketService \<Rightarrow> 'w WebSocketService" where
  "onerror s = emit ''error'' ErrorEvent (s\<lparr>isConnecting := False\<rparr>)"

definition onclose :: "gid \<Rightarrow> 'w WebSocketService \<Rightarrow> 'w WebSocketService" where
  "onclose groupId s =
     attemptReconnect groupId (emit ''disconnected'' NoPayload (s\<lparr>isConnecting := False\<rparr>))"

subsection \<open>Sending\<close>

text \<open>\<^verbatim>\<open>this.ws.send(JSON.stringify(data))\<close> on the socket with handle \<open>i\<close>.\<close>

definition write_frame :: "nat \<Rightarrow> out_msg \<Rightarrow> 'w WebSocketService \<Rightarrow> 'w WebSocketService" where
  "write_frame i d s =
     s\<lparr>sockets := (sockets s)[i := (sockets s ! i)\<lparr>sock_sent := sock_sent (sockets s ! i) @ [d]\<rparr>]\<rparr>"

definition send :: "out_msg \<Rightarrow> 'w WebSocketService \<Rightarrow> bool \<times> 'w WebSocketService" where
  "send d s =
     (case ws s of
        None \<Rightarrow> (False, s)
      | Some i \<Rightarrow>
          if i < length (sockets s) \<and> sock_state (sockets s ! i) = OPEN
          then (True, write_frame i d s)
          else (False, s))"

definition sendMessage :: "string \<Rightarrow> 'w WebSocketService \<Rightarrow> bool \<times> 'w WebSocketService" where
  "sendMessage content s = send (ChatMessage content) s"

definition startCall :: "string \<Rightarrow> string \<Rightarrow> 'w WebSocketService \<Rightarrow> bool \<times> 'w WebSocketService" where
  "startCall callType callerName s = send (CallStart callType callerName) s"

definition endCall :: "'w WebSocketService \<Rightarrow> bool \<times> 'w WebSocketService" where
  "endCall s = send CallEnd s"

definition acceptCall :: "string \<Rightarrow> 'w WebSocketService \<Rightarrow> bool \<times> 'w WebSocketService" where
  "acceptCall acceptorName s = send (CallAccept acceptorName) s"

definition declineCall :: "'w WebSocketService \<Rightarrow> bool \<times> 'w WebSocketService" where
  "declineCall s = send CallDecline s"

subsection \<open>The browser's side of a socket\<close>

text \<open>
  \<^verbatim>\<open>close()\<close> on a socket that is connecting or open starts the closing handshake;
  the \<^verbatim>\<open>close\<close> event comes later, in a turn of its own.
\<close>

definition sock_close_call :: "nat \<Rightarrow> 'w WebSocketService \<Rightarrow> 'w WebSocketService" where
  "sock_close_call i s =
     (if i < length (sockets s) \<and> sock_state (sockets s ! i) \<in> {CONNECTING, OPEN}
      then s\<lparr>sockets := (sockets s)[i := (sockets s ! i)\<lparr>sock_state := CLOSING\<rparr>]\<rparr>
      else s)"

definition disconnect :: "'w WebSocketService \<Rightarrow> 'w WebSocketService" where
  "disconnect s =
     (let s1 = (case ws s of None \<Rightarrow> s | Some i \<Rightarrow> (sock_close_call i s)\<lparr>ws := None\<rparr>) in
      s1\<lparr>listeners := Map.empty, reconnectAttempts := 0\<rparr>)"

text \<open>
  What the network does to socket \<open>i\<close>. The connection is established; a frame
  arrives; the closing handshake starts (the peer's close frame was received); the
  connection is closed cleanly (\<^verbatim>\<open>close\<close> event); the connection fails (\<^verbatim>\<open>error\<close>
  then \<^verbatim>\<open>close\<close>, in one turn, the ready state already \<open>CLOSED\<close>).
\<close>

definition set_state :: "nat \<Rightarrow> readyState \<Rightarrow> 'w WebSocketService \<Rightarrow> 'w WebSocketService" where
  "set_state i st s = s\<lparr>sockets := (sockets s)[i := (sockets s ! i)\<lparr>sock_state := st\<rparr>]\<rparr>"

definition sock_opened :: "nat \<Rightarrow> 'w WebSocketService \<Rightarrow> 'w WebSocketService" where
  "sock_opened i s =
     (if i < length (sockets s) \<and> sock_state (sockets s ! i) = CONNECTING
      then onopen (set_state i OPEN s) else s)"

definition sock_message :: "nat \<Rightarrow> frame \<Rightarrow> 'w WebSocketService \<Rightarrow> 'w WebSocketService" where
  "sock_message i f s =
     (if i < length (sockets s) \<and> sock_state (sockets s ! i) \<in> {OPEN, CLOSING}
      then onmessage f s else s)"

definition sock_closing :: "nat \<Rightarrow> 'w WebSocketService \<Rightarrow> 'w WebSocketService" where
  "sock_closing i s =
     (if i < length (sockets s) \<and> sock_state (sockets s ! i) = OPEN
      then set_state i CLOSING s else s)"

definition sock_closed :: "nat \<Rightarrow> 'w WebSocketService \<Rightarrow> 'w WebSocketService" where
  "sock_closed i s =
     (if i < length (sockets s) \<and> sock_state (sockets s ! i) \<noteq> CLOSED
      then onclose (sock_group (sockets s ! i)) (set_state i CLOSED s) else s)"

definition sock_failed :: "nat \<Rightarrow> 'w WebSocketService \<Rightarrow> 'w WebSocketService" where
  "sock_failed i s =
     (if i < length (sockets s) \<and> sock_state (sockets s ! i) \<noteq> CLOSED
      then onclose (sock_group (sockets s ! i)) (onerror (set_state i CLOSED s)) else s)"

text \<open>The \<open>k\<close>-th armed timer fires: its callback calls \<^verbatim>\<open>this.connect(groupId)\<close>.\<close>

definition timer_fired :: "nat \<Rightarrow> 'w WebSocketService \<Rightarrow> 'w WebSocketService" where
  "timer_fired k s =
     (if k < length (timers s)
      then connect (snd (timers s ! k)) (s\<lparr>timers := take k (timers s) @ drop (Suc k) (timers s)\<rparr>)
      else s)"

subsection \<open>Runs of the service\<close>

text \<open>
  Everything that can happen to the service: a call of one of its methods by the
  application, or one of the browser events above.
\<close>

datatype 'w action =
    Connect gid
  | SetGetToken "nat option"
  | Send out_msg
  | On string "'w callback"
  | Off string "'w callback"
  | Disconnect
  | TokenResolved nat string
  | TokenRejected nat
  | SockOpened nat
  | SockMessage nat frame
  | SockClosing nat
  | SockClosed nat
  | SockFailed nat
  | TimerFired nat

fun step :: "'w action \<Rightarrow> 'w WebSocketService \<Rightarrow> 'w WebSocketService" where
  "step (Connect g) s = connect g s"
| "step (SetGetToken fn) s = setGetToken fn s"
| "step (Send d) s = snd (send d s)"
| "step (On e cb) s = on e cb s"
| "step (Off e cb) s = off e cb s"
| "step Disconnect s = disconnect s"
| "step (TokenResolved k t) s = token_resolved k t s"
| "step (TokenRejected k) s = token_rejected k s"
| "step (SockOpened i) s = sock_opened i s"
| "step (SockMessage i f) s = sock_message i f s"
| "step (SockClosing i) s = sock_closing i s"
| "step (SockClosed i) s = sock_closed i s"
| "step (SockFailed i) s = sock_failed i s"
| "step (TimerFired k) s = timer_fired k s"

fun run :: "'w action list \<Rightarrow> 'w WebSocketService \<Rightarrow> 'w WebSocketService" where
  "run [] s = s"
| "run (a # as) s = run as (step a s)"

text \<open>
  The actions after which a socket lingers in the \<open>CLOSING\<close> state: the start of a
  closing handshake, and \<^verbatim>\<open>disconnect\<close>, which calls \<^verbatim>\<open>close()\<close>.
\<close>

fun lingering :: "'w action \<Rightarrow> bool" where
  "lingering (SockClosing _) = True"
| "lingering Disconnect = True"
| "lingering _ = False"

text \<open>The number of socket objects that are not closed.\<close>

definition live :: "'w WebSocketService \<Rightarrow> nat" where
  "live s = length (filter (\<lambda>k. sock_state k \<noteq> CLOSED) (sockets s))"

text \<open>
  The listeners of an event, in the order of the array; a list of \<^verbatim>\<open>on\<close> calls and a
  list of \<^verbatim>\<open>off\<close> calls, made one after the other.
\<close>

definition registered :: "string \<Rightarrow> 'w WebSocketService \<Rightarrow> 'w callback list" where
  "registered event s = (case listeners s event of None \<Rightarrow> [] | Some cbs \<Rightarrow> cbs)"

fun subscribe_all :: "(string \<times> 'w callback) list \<Rightarrow> 'w WebSocketService \<Rightarrow> 'w WebSocketService" where
  "subscribe_all [] s = s"
| "subscribe_all ((event, cb) # regs) s = subscribe_all regs (on event cb s)"

fun unsubscribe_all :: "(string \<times> 'w callback) list \<Rightarrow> 'w WebSocketService \<Rightarrow> 'w WebSocketService" where
  "unsubscribe_all [] s = s"
| "unsubscribe_all ((event, cb) # regs) s = unsubscribe_all regs (off event cb s)"

fun after :: "'w outcome \<Rightarrow> 'w" where
  "after (Returned w) = w"
| "after (Threw w) = w"

text \<open>
  One reconnect attempt whose open fails: the first armed timer fires, the token
  provider (when there is one) delivers \<open>token\<close>, and the connection of the socket
  that \<^verbatim>\<open>connect\<close> created fails. \<open>failing_run n\<close> repeats this while a timer is
  armed, at most \<open>n\<close> times.
\<close>

definition failing_attempt :: "string \<Rightarrow> 'w WebSocketService \<Rightarrow> 'w WebSocketService" where
  "failing_attempt token s =
     (let s1 = timer_fired 0 s;
          s2 = token_resolved 0 token s1
      in case ws s2 of None \<Rightarrow> s2 | Some i \<Rightarrow> sock_failed i s2)"

fun failing_run :: "nat \<Rightarrow> string \<Rightarrow> 'w WebSocketService \<Rightarrow> 'w WebSocketService" where
  "failing_run 0 token s = s"
| "failing_run (Suc n) token s =
     (if timers s = [] then s else failing_run n token (failing_attempt token s))"

text \<open>
  The service between two attempts of such a run: \<open>k\<close> attempts counted, the timer of
  the \<open>k\<close>-th armed, nothing else pending, every socket closed.
\<close>

definition between :: "nat \<Rightarrow> gid \<Rightarrow> 'w WebSocketService \<Rightarrow> bool" where
  "between k g s =
     (reconnectAttempts s = k \<and> maxReconnectAttempts s = 5 \<and> reconnectDelay s = 1000 \<and>
      timers s = [(1000 * k, g)] \<and> awaiting s = [] \<and> \<not> isConnecting s \<and> live s = 0 \<and>
      (\<forall>u. \<not> rejects_url s u))"

text \<open>
  What holds of the handle, the sockets and the \<open>isConnecting\<close> flag as long as no
  socket lingers in \<open>CLOSING\<close>: every socket but the one held is closed; a held socket
  that is connecting has the flag set; while a \<^verbatim>\<open>connect\<close> awaits its token it is
  the only one, the flag is set and every socket is closed.
\<close>

definition settled :: "'w WebSocketService \<Rightarrow> bool" where
  "settled s =
     ((\<forall>j < length (sockets s). Some j \<noteq> ws s \<longrightarrow> sock_state (sockets s ! j) = CLOSED) \<and>
      (\<forall>j < length (sockets s). sock_state (sockets s ! j) \<noteq> CLOSING) \<and>
      (case ws s of
         None \<Rightarrow> True
       | Some i \<Rightarrow> i < length (sockets s) \<and>
                   (sock_state (sockets s ! i) = CONNECTING \<longrightarrow> isConnecting s)) \<and>
      (awaiting s \<noteq> [] \<longrightarrow> isConnecting s \<and> length (awaiting s) = 1 \<and> live s = 0))"

section \<open>The call component: \<^verbatim>\<open>VoiceCall\<close> (components/voicecall)\<close>

text \<open>
  The component keeps React state, refs, and the shared service. Media streams are
  objects that the state variable \<^verbatim>\<open>localStream\<close> and the ref
  \<^verbatim>\<open>localStreamRef\<close> both point to, and whose tracks are changed in place; they
  live in a store (\<open>media\<close>) and are referred to by address. Each handler runs as one
  step: what the browser answers at each \<^verbatim>\<open>await\<close> is an argument of the handler,
  and no other handler runs between two of its suspension points.
\<close>

datatype track_kind = Audio | Video

record track =
  kind :: track_kind
  enabled :: bool
  ended :: bool

type_synonym stream = "track list"

text \<open>\<^verbatim>\<open>track.stop()\<close>\<close>

definition stop :: "track \<Rightarrow> track" where
  "stop t = t\<lparr>ended := True\<rparr>"

datatype signalingState =
  Stable | HaveLocalOffer | HaveRemoteOffer | HaveLocalPranswer | HaveRemotePranswer | SigClosed

datatype connectionState = New | Connecting | Connected | Disconnected | Failed | ConnClosed

datatype sdp_type = Offer | Answer

text \<open>
  An \<^verbatim>\<open>RTCPeerConnection\<close>: its two state attributes, its descriptions, the local
  tracks added to it (stream address and index), the remote candidates added to it.
\<close>

record peer =
  signalingState :: signalingState
  connectionState :: connectionState
  localDescription :: "(sdp_type \<times> sdp) option"
  remoteDescription :: "(sdp_type \<times> sdp) option"
  senders :: "(nat \<times> nat) list"
  iceCandidates :: "candidate list"

text \<open>
  What the browser answers to the asynchronous calls of one handler run: the
  description \<^verbatim>\<open>createOffer\<close> or \<^verbatim>\<open>createAnswer\<close> produces (\<open>None\<close>: the promise
  rejects), and whether it accepts the description or candidate it is given.
\<close>

record browser =
  created :: "sdp option"
  sld_ok :: bool
  srd_ok :: bool
  ice_ok :: bool

text \<open>
  The signaling state machine of the browser interface. A call in a state that does
  not allow it rejects (\<open>None\<close>), as does a call the browser refuses.
\<close>

definition pc_createOffer :: "browser \<Rightarrow> peer \<Rightarrow> sdp option" where
  "pc_createOffer b pc = (if signalingState pc = SigClosed then None else created b)"

definition pc_createAnswer :: "browser \<Rightarrow> peer \<Rightarrow> sdp option" where
  "pc_createAnswer b pc =
     (if signalingState pc = HaveRemoteOffer \<or> signalingState pc = HaveLocalPranswer
      then created b else None)"

definition pc_setLocalDescription :: "browser \<Rightarrow> sdp_type \<Rightarrow> sdp \<Rightarrow> peer \<Rightarrow> peer option" where
  "pc_setLocalDescription b ty d pc =
     (if \<not> sld_ok b then None
      else case ty of
        Offer \<Rightarrow>
          if signalingState pc = Stable \<or> signalingState pc = HaveLocalOffer
          then Some (pc\<lparr>signalingState := HaveLocalOffer, localDescription := Some (Offer, d)\<rparr>)
          else None
      | Answer \<Rightarrow>
          if signalingState pc = HaveRemoteOffer \<or> signalingState pc = HaveLocalPranswer
          then Some (pc\<lparr>signalingState := Stable, localDescription := Some (Answer, d)\<rparr>)
          else None)"

definition pc_setRemoteDescription :: "browser \<Rightarrow> sdp_type \<Rightarrow> sdp \<Rightarrow> peer \<Rightarrow> peer option" where
  "pc_setRemoteDescription b ty d pc =
     (if \<not> srd_ok b then None
      else case ty of
        Offer \<Rightarrow>
          if signalingState pc = Stable \<or> signalingState pc = HaveRemoteOffer
          then Some (pc\<lparr>signalingState := HaveRemoteOffer, remoteDescription := Some (Offer, d)\<rparr>)
          else None
      | Answer \<Rightarrow>
          if signalingState pc = HaveLocalOffer \<or> signalingState pc = HaveRemotePranswer
          then Some (pc\<lparr>signalingState := Stable, remoteDescription := Some (Answer, d)\<rparr>)
          else None)"

definition pc_addIceCandidate :: "browser \<Rightarrow> candidate \<Rightarrow> peer \<Rightarrow> peer option" where
  "pc_addIceCandidate b c pc =
     (if ice_ok b \<and> remoteDescription pc \<noteq> None
      then Some (pc\<lparr>iceCandidates := iceCandidates pc @ [c]\<rparr>) else None)"

record presence =
  name :: string
  muted :: bool

record remote =
  userId :: uid
  remote_tracks :: stream

datatype permission = Requesting | Granted | Denied | PermError

text \<open>
  The state of the component. \<open>participants\<close> and \<open>peersRef\<close> are JavaScript maps,
  kept in insertion order; \<open>callTimers\<close> are the armed offer timers (delay, target);
  \<open>nameFetches\<close> the profile requests in flight; \<open>navigated\<close> the route last passed to
  \<^verbatim>\<open>navigate\<close>; \<open>listening\<close> the \<^verbatim>\<open>handleWebRTCMessage\<close> closure that the last run
  of the listener effect registered and that its cleanup function will unsubscribe.
\<close>

record 'w VoiceCall =
  groupId :: "gid option"
  isVideo :: bool
  user_id :: "uid option"
  user_name :: string
  localStream :: "nat option"
  remoteStreams :: "remote list"
  participants :: "(uid \<times> presence) list"
  isMuted :: bool
  isVideoOff :: bool
  callConnected :: bool
  error :: string
  permissionStatus :: permission
  permissionError :: "string option"
  peersRef :: "(uid \<times> peer) list"
  localStreamRef :: "nat option"
  remoteAudioRefs :: "uid list"
  wsService :: "'w WebSocketService"
  media :: "stream list"
  callTimers :: "(nat \<times> uid) list"
  nameFetches :: "uid list"
  navigated :: "string option"
  listening :: "'w callback option"

text \<open>
  The component as first rendered: the initial values of its state and refs. The
  effects run after that, as steps of their own.
\<close>

definition mount :: "gid option \<Rightarrow> bool \<Rightarrow> uid option \<Rightarrow> string \<Rightarrow> 'w WebSocketService \<Rightarrow> 'w VoiceCall" where
  "mount g video me myName svc =
     \<lparr> groupId = g, isVideo = video, user_id = me, user_name = myName,
       localStream = None, remoteStreams = [], participants = [],
       isMuted = False, isVideoOff = False, callConnected = False, error = [],
       permissionStatus = Requesting, permissionError = None,
       peersRef = [], localStreamRef = None, remoteAudioRefs = [],
       wsService = svc, media = [], callTimers = [], nameFetches = [], navigated = None,
       listening = None \<rparr>"

text \<open>A string that JavaScript treats as true: defined and not empty.\<close>

fun truthy :: "string option \<Rightarrow> bool" where
  "truthy None = False"
| "truthy (Some x) = (x \<noteq> [])"

text \<open>\<^verbatim>\<open>wsService.send(d)\<close> from the component; the flag is returned with the state.\<close>

definition ws_send :: "out_msg \<Rightarrow> 'w VoiceCall \<Rightarrow> bool \<times> 'w VoiceCall" where
  "ws_send d c = (let (sent, svc) = send d (wsService c) in (sent, c\<lparr>wsService := svc\<rparr>))"

subsection \<open>Local media\<close>

text \<open>
  \<^verbatim>\<open>requestMediaAccess\<close>, after \<^verbatim>\<open>getUserMedia\<close> has settled: with a stream, or with
  an error of the given name and message.
\<close>

datatype media_result = GotStream stream | MediaError string string

definition requestMediaAccess :: "media_result \<Rightarrow> 'w VoiceCall \<Rightarrow> 'w VoiceCall" where
  "requestMediaAccess r c =
     (case r of
        GotStream st \<Rightarrow>
          let a = length (media c);
              c1 = c\<lparr>media := media c @ [st], localStream := Some a, localStreamRef := Some a,
                     callConnected := True, permissionStatus := Granted, error := [],
                     permissionError := None\<rparr>
          in if truthy (groupId c1) \<and> truthy (user_id c1)
             then
               let c2 = snd (ws_send (ParticipantReady (user_id c1) (groupId c1)) c1) in
               (case user_id c2 of
                  None \<Rightarrow> c2
                | Some me \<Rightarrow>
                    c2\<lparr>participants :=
                         AList.update me \<lparr>name = user_name c2, muted = False\<rparr> (participants c2)\<rparr>)
             else c1
      | MediaError nm msg \<Rightarrow>
          let pre = ''Failed to access camera/microphone. '';
              c1 = c\<lparr>permissionStatus := Denied, permissionError := None, error := []\<rparr>
          in if nm = ''NotAllowedError'' \<or> nm = ''PermissionDeniedError''
             then c1\<lparr>permissionError := Some ''permission-denied'',
                     error := pre @ ''Please allow camera/microphone access when prompted, or enable permissions in your browser settings.''\<rparr>
             else if nm = ''NotFoundError'' \<or> nm = ''DevicesNotFoundError''
             then c1\<lparr>permissionError := Some ''device-not-found'',
                     error := pre @ ''No camera or microphone found. Please connect a device and try again.''\<rparr>
             else if nm = ''NotReadableError'' \<or> nm = ''TrackStartError''
             then c1\<lparr>permissionError := Some ''device-in-use'',
                     error := pre @ ''Camera or microphone is already in use by another application.''\<rparr>
             else if nm = ''OverconstrainedError'' \<or> nm = ''ConstraintNotSatisfiedError''
             then c1\<lparr>permissionError := Some ''constraint-error'',
                     error := pre @ ''Camera/microphone does not support the required settings.''\<rparr>
             else c1\<lparr>permissionError := Some ''unknown'',
                     error := pre @ ''Error: '' @ (if msg \<noteq> [] then msg else ''Unknown error occurred'')\<rparr>)"

text \<open>
  The \<^verbatim>\<open>onchange\<close> handler that \<^verbatim>\<open>checkPermissionsAndInitialize\<close> installs on the
  microphone and camera permissions: when the permission has become \<^verbatim>\<open>granted\<close> it
  calls \<^verbatim>\<open>requestMediaAccess\<close> once more; \<open>r\<close> is what \<^verbatim>\<open>getUserMedia\<close> answers there.
\<close>

definition permission_onchange :: "string \<Rightarrow> media_result \<Rightarrow> 'w VoiceCall \<Rightarrow> 'w VoiceCall" where
  "permission_onchange st r c = (if st = ''granted'' then requestMediaAccess r c else c)"

text \<open>Setting \<^verbatim>\<open>track.enabled\<close> on the tracks of one kind of the stream at address \<open>a\<close>.\<close>

definition set_enabled :: "track_kind \<Rightarrow> bool \<Rightarrow> nat \<Rightarrow> stream list \<Rightarrow> stream list" where
  "set_enabled k v a m =
     (if a < length m
      then m[a := map (\<lambda>t. if kind t = k then t\<lparr>enabled := v\<rparr> else t) (m ! a)]
      else m)"

definition toggleMute :: "'w VoiceCall \<Rightarrow> 'w VoiceCall" where
  "toggleMute c =
     (case localStream c of
        None \<Rightarrow> c
      | Some a \<Rightarrow>
          let newMutedState = \<not> isMuted c;
              c1 = c\<lparr>media := set_enabled Audio newMutedState a (media c), isMuted := newMutedState\<rparr>
          in if truthy (groupId c1)
             then snd (ws_send (MuteStatus (user_id c1) newMutedState (groupId c1)) c1)
             else c1)"

definition toggleVideo :: "'w VoiceCall \<Rightarrow> 'w VoiceCall" where
  "toggleVideo c =
     (case localStream c of
        None \<Rightarrow> c
      | Some a \<Rightarrow>
          c\<lparr>media := set_enabled Video (isVideoOff c) a (media c), isVideoOff := \<not> isVideoOff c\<rparr>)"

text \<open>
  \<^verbatim>\<open>toggleMute\<close> as the earlier version of the component has it (the file that
  carries no signaling): it assigns the old flag, as \<^verbatim>\<open>toggleVideo\<close> does.
\<close>

definition toggleMute_earlier :: "'w VoiceCall \<Rightarrow> 'w VoiceCall" where
  "toggleMute_earlier c =
     (case localStream c of
        None \<Rightarrow> c
      | Some a \<Rightarrow>
          c\<lparr>media := set_enabled Audio (isMuted c) a (media c), isMuted := \<not> isMuted c\<rparr>)"

subsection \<open>Participant names\<close>

definition fetchParticipantName :: "uid \<Rightarrow> 'w VoiceCall \<Rightarrow> 'w VoiceCall" where
  "fetchParticipantName u c =
     (if u = [] \<or> Some u = user_id c then c else c\<lparr>nameFetches := nameFetches c @ [u]\<rparr>)"

text \<open>
  The \<open>k\<close>-th profile request settles: with a display name, or with an error, in
  which case the name is \<^verbatim>\<open>'User'\<close>.
\<close>

definition name_fetched :: "nat \<Rightarrow> string option \<Rightarrow> 'w VoiceCall \<Rightarrow> 'w VoiceCall" where
  "name_fetched k r c =
     (if k < length (nameFetches c)
      then
        let u = nameFetches c ! k;
            existing = (case map_of (participants c) u of None \<Rightarrow> False | Some p \<Rightarrow> muted p);
            nm = (case r of None \<Rightarrow> ''User'' | Some n \<Rightarrow> n)
        in c\<lparr>nameFetches := take k (nameFetches c) @ drop (Suc k) (nameFetches c),
             participants := AList.update u \<lparr>name = nm, muted = existing\<rparr> (participants c)\<rparr>
      else c)"

subsection \<open>The peer-connection registry and signaling\<close>

text \<open>
  \<^verbatim>\<open>createPeerConnection\<close>: a fresh connection, with every track of the local
  stream added when there is one, stored under \<open>u\<close>. The new connection is returned
  with the state.
\<close>

definition new_peer :: "'w VoiceCall \<Rightarrow> peer" where
  "new_peer c =
     \<lparr> signalingState = Stable, connectionState = New,
       localDescription = None, remoteDescription = None,
       senders = (case localStreamRef c of
                    None \<Rightarrow> []
                  | Some a \<Rightarrow> if a < length (media c)
                              then map (\<lambda>k. (a, k)) [0 ..< length (media c ! a)] else []),
       iceCandidates = [] \<rparr>"

definition createPeerConnection :: "uid \<Rightarrow> 'w VoiceCall \<Rightarrow> peer \<times> 'w VoiceCall" where
  "createPeerConnection u c =
     (new_peer c, c\<lparr>peersRef := AList.update u (new_peer c) (peersRef c)\<rparr>)"

text \<open>
  The three event sinks wired by \<^verbatim>\<open>createPeerConnection\<close>, for the connection
  created for \<open>u\<close>: a remote track arrives with its stream; a local candidate is
  found; the connection state has changed to \<open>st\<close>. The third deletes whatever is
  registered under \<open>u\<close> when the state is \<open>failed\<close> or \<open>disconnected\<close>.
\<close>

definition ontrack :: "uid \<Rightarrow> stream \<Rightarrow> 'w VoiceCall \<Rightarrow> 'w VoiceCall" where
  "ontrack u st c =
     fetchParticipantName u
       (c\<lparr>remoteStreams :=
            (if \<exists>r \<in> set (remoteStreams c). userId r = u
             then map (\<lambda>r. if userId r = u then \<lparr>userId = u, remote_tracks = st\<rparr> else r) (remoteStreams c)
             else remoteStreams c @ [\<lparr>userId = u, remote_tracks = st\<rparr>])\<rparr>)"

definition onicecandidate :: "uid \<Rightarrow> candidate option \<Rightarrow> 'w VoiceCall \<Rightarrow> 'w VoiceCall" where
  "onicecandidate u ev c =
     (case ev of
        None \<Rightarrow> c
      | Some cand \<Rightarrow> snd (ws_send (WebrtcIce cand u (groupId c)) c))"

definition onconnectionstatechange :: "uid \<Rightarrow> connectionState \<Rightarrow> 'w VoiceCall \<Rightarrow> 'w VoiceCall" where
  "onconnectionstatechange u st c =
     (if st = Failed \<or> st = Disconnected
      then c\<lparr>peersRef := AList.delete u (peersRef c),
             remoteStreams := filter (\<lambda>r. userId r \<noteq> u) (remoteStreams c)\<rparr>
      else c)"

text \<open>
  The browser's side of it, for the connection registered under \<open>u\<close>: its
  \<^verbatim>\<open>connectionState\<close> attribute changes, then its handler runs.
\<close>

definition connection_state_changed :: "uid \<Rightarrow> connectionState \<Rightarrow> 'w VoiceCall \<Rightarrow> 'w VoiceCall" where
  "connection_state_changed u st c =
     onconnectionstatechange u st
       (case map_of (peersRef c) u of
          None \<Rightarrow> c
        | Some pc \<Rightarrow> c\<lparr>peersRef := AList.update u (pc\<lparr>connectionState := st\<rparr>) (peersRef c)\<rparr>)"

text \<open>
  How a run of a signaling handler ends: it returns before its \<^verbatim>\<open>try\<close> block
  (\<open>Skipped\<close>), the block runs to its end (\<open>Done\<close>), or a statement of the block
  raises (\<open>Raised\<close>); each time a state is left behind. The \<^verbatim>\<open>catch\<close> blocks of
  the three handlers delete the entry of the participant concerned.
\<close>

datatype 'a attempt = Skipped 'a | Done 'a | Raised 'a

definition catch_delete :: "uid \<Rightarrow> 'w VoiceCall attempt \<Rightarrow> 'w VoiceCall" where
  "catch_delete u r =
     (case r of
        Skipped c \<Rightarrow> c
      | Done c \<Rightarrow> c
      | Raised c \<Rightarrow> c\<lparr>peersRef := AList.delete u (peersRef c)\<rparr>)"

text \<open>The \<^verbatim>\<open>try\<close> block of \<^verbatim>\<open>createOfferForUser\<close>, on the connection \<open>pc\<close> of \<open>u\<close>.\<close>

definition offer_try :: "browser \<Rightarrow> uid \<Rightarrow> peer \<Rightarrow> 'w VoiceCall \<Rightarrow> 'w VoiceCall attempt" where
  "offer_try b u pc c =
     (case pc_createOffer b pc of
        None \<Rightarrow> Raised c
      | Some offer \<Rightarrow>
          (case pc_setLocalDescription b Offer offer pc of
             None \<Rightarrow> Raised c
           | Some pc1 \<Rightarrow>
               Done (snd (ws_send (WebrtcOffer offer u (groupId c))
                            (c\<lparr>peersRef := AList.update u pc1 (peersRef c)\<rparr>)))))"

text \<open>\<^verbatim>\<open>createOfferForUser\<close>: the guards and the \<^verbatim>\<open>try\<close> block, then the \<^verbatim>\<open>catch\<close>.\<close>

definition createOfferForUser_body :: "browser \<Rightarrow> uid \<Rightarrow> 'w VoiceCall \<Rightarrow> 'w VoiceCall attempt" where
  "createOfferForUser_body b u c =
     (if localStreamRef c = None then Skipped c
      else
        case map_of (peersRef c) u of
          Some existingPeer \<Rightarrow>
            if signalingState existingPeer \<noteq> Stable then Skipped c
            else if connectionState existingPeer = Connected then Skipped c
            else offer_try b u existingPeer c
        | None \<Rightarrow>
            let (pc, c1) = createPeerConnection u c in offer_try b u pc c1)"

definition createOfferForUser :: "browser \<Rightarrow> uid \<Rightarrow> 'w VoiceCall \<Rightarrow> 'w VoiceCall" where
  "createOfferForUser b u c = catch_delete u (createOfferForUser_body b u c)"

text \<open>The \<^verbatim>\<open>try\<close> block of \<^verbatim>\<open>handleOffer\<close>.\<close>

definition answer_try :: "browser \<Rightarrow> sdp \<Rightarrow> uid \<Rightarrow> peer \<Rightarrow> 'w VoiceCall \<Rightarrow> 'w VoiceCall attempt" where
  "answer_try b offer u pc c =
     (case pc_setRemoteDescription b Offer offer pc of
        None \<Rightarrow> Raised c
      | Some pc1 \<Rightarrow>
          let c1 = c\<lparr>peersRef := AList.update u pc1 (peersRef c)\<rparr> in
          (case pc_createAnswer b pc1 of
             None \<Rightarrow> Raised c1
           | Some answer \<Rightarrow>
               (case pc_setLocalDescription b Answer answer pc1 of
                  None \<Rightarrow> Raised c1
                | Some pc2 \<Rightarrow>
                    Done (snd (ws_send (WebrtcAnswer answer u (groupId c1))
                                 (c1\<lparr>peersRef := AList.update u pc2 (peersRef c1)\<rparr>))))))"

definition handleOffer_body :: "browser \<Rightarrow> sdp \<Rightarrow> uid \<Rightarrow> 'w VoiceCall \<Rightarrow> 'w VoiceCall attempt" where
  "handleOffer_body b offer caller_id c =
     (if localStreamRef c = None then Skipped c
      else
        let (peerConnection, c1) =
              (case map_of (peersRef c) caller_id of
                 None \<Rightarrow> createPeerConnection caller_id c
               | Some pc \<Rightarrow> (pc, c))
        in if signalingState peerConnection \<noteq> Stable then Skipped c1
           else answer_try b offer caller_id peerConnection c1)"

definition handleOffer :: "browser \<Rightarrow> sdp \<Rightarrow> uid \<Rightarrow> 'w VoiceCall \<Rightarrow> 'w VoiceCall" where
  "handleOffer b offer caller_id c = catch_delete caller_id (handleOffer_body b offer caller_id c)"

text \<open>The \<^verbatim>\<open>try\<close> block of \<^verbatim>\<open>handleAnswer\<close>.\<close>

definition accept_try :: "browser \<Rightarrow> sdp \<Rightarrow> uid \<Rightarrow> peer \<Rightarrow> 'w VoiceCall \<Rightarrow> 'w VoiceCall attempt" where
  "accept_try b answer u pc c =
     (case pc_setRemoteDescription b Answer answer pc of
        None \<Rightarrow> Raised c
      | Some pc1 \<Rightarrow> Done (c\<lparr>peersRef := AList.update u pc1 (peersRef c)\<rparr>))"

definition handleAnswer_body :: "browser \<Rightarrow> sdp \<Rightarrow> uid \<Rightarrow> 'w VoiceCall \<Rightarrow> 'w VoiceCall attempt" where
  "handleAnswer_body b answer answerer_id c =
     (case map_of (peersRef c) answerer_id of
        None \<Rightarrow> Skipped c
      | Some peerConnection \<Rightarrow>
          if signalingState peerConnection \<noteq> HaveLocalOffer then Skipped c
          else accept_try b answer answerer_id peerConnection c)"

definition handleAnswer :: "browser \<Rightarrow> sdp \<Rightarrow> uid \<Rightarrow> 'w VoiceCall \<Rightarrow> 'w VoiceCall" where
  "handleAnswer b answer answerer_id c =
     catch_delete answerer_id (handleAnswer_body b answer answerer_id c)"

definition handleIceCandidate :: "browser \<Rightarrow> candidate \<Rightarrow> uid \<Rightarrow> 'w VoiceCall \<Rightarrow> 'w VoiceCall" where
  "handleIceCandidate b cand sender_id c =
     (case map_of (peersRef c) sender_id of
        None \<Rightarrow> c
      | Some peerConnection \<Rightarrow>
          (case pc_addIceCandidate b cand peerConnection of
             None \<Rightarrow> c
           | Some pc1 \<Rightarrow> c\<lparr>peersRef := AList.update sender_id pc1 (peersRef c)\<rparr>))"

text \<open>
  The \<^verbatim>\<open>forEach\<close> of the \<^verbatim>\<open>call_participants_list\<close> branch, from index \<open>i\<close> on.
  The registry is not changed by the loop, so every test reads the same registry.
\<close>

fun forEach_participant :: "nat \<Rightarrow> uid list \<Rightarrow> 'w VoiceCall \<Rightarrow> 'w VoiceCall" where
  "forEach_participant i [] c = c"
| "forEach_participant i (participantId # rest) c =
     forEach_participant (Suc i) rest
       (if Some participantId \<noteq> user_id c \<and> map_of (peersRef c) participantId = None
        then fetchParticipantName participantId
               (c\<lparr>callTimers := callTimers c @ [(500 + i * 200, participantId)]\<rparr>)
        else c)"

text \<open>
  \<^verbatim>\<open>handleWebRTCMessage\<close>, branch by branch in the order of the source. Its last
  branch repeats the condition of the fourth and is never taken.
\<close>

definition handleWebRTCMessage :: "browser \<Rightarrow> in_msg \<Rightarrow> 'w VoiceCall \<Rightarrow> 'w VoiceCall" where
  "handleWebRTCMessage b d c =
     (case d of
        InOffer offer caller_id \<Rightarrow> handleOffer b offer caller_id c
      | InAnswer answer answerer_id \<Rightarrow> handleAnswer b answer answerer_id c
      | InIce cand sender_id \<Rightarrow> handleIceCandidate b cand sender_id c
      | UserJoined u \<Rightarrow>
          if Some u \<noteq> user_id c
          then (if localStreamRef c \<noteq> None then c\<lparr>callTimers := callTimers c @ [(500, u)]\<rparr> else c)
          else c
      | InParticipantReady u \<Rightarrow>
          if Some u \<noteq> user_id c
          then (if localStreamRef c \<noteq> None then c\<lparr>callTimers := callTimers c @ [(500, u)]\<rparr> else c)
          else c
      | ParticipantsList ps \<Rightarrow>
          (case ps of
             None \<Rightarrow> c
           | Some l \<Rightarrow>
               if localStreamRef c \<noteq> None \<and> length l > 0 then forEach_participant 0 l c else c)
      | InMuteStatus u m \<Rightarrow>
          if Some u \<noteq> user_id c
          then
            let existing = (case map_of (participants c) u of None \<Rightarrow> ''User'' | Some p \<Rightarrow> name p)
            in c\<lparr>participants := AList.update u \<lparr>name = existing, muted = m\<rparr> (participants c)\<rparr>
          else c
      | InOther t \<Rightarrow> c)"

text \<open>
  The first armed offer timer fires: its callback calls \<^verbatim>\<open>createOfferForUser\<close>.
  \<open>fire_timers n\<close> lets the first \<open>n\<close> timers fire one after the other; \<open>bs\<close> gives the
  browser's answers for each target.
\<close>

definition fire_timer :: "(uid \<Rightarrow> browser) \<Rightarrow> 'w VoiceCall \<Rightarrow> 'w VoiceCall" where
  "fire_timer bs c =
     (case callTimers c of
        [] \<Rightarrow> c
      | (d, u) # rest \<Rightarrow> createOfferForUser (bs u) u (c\<lparr>callTimers := rest\<rparr>))"

fun fire_timers :: "nat \<Rightarrow> (uid \<Rightarrow> browser) \<Rightarrow> 'w VoiceCall \<Rightarrow> 'w VoiceCall" where
  "fire_timers 0 bs c = c"
| "fire_timers (Suc n) bs c = fire_timers n bs (fire_timer bs c)"

subsection \<open>Teardown\<close>

text \<open>
  \<^verbatim>\<open>cleanup\<close>. Closing a connection and stopping a remote track act on objects
  that the next statement drops from the registry and from the stream list; the local
  tracks stay in the store, stopped.
\<close>

definition cleanup :: "'w VoiceCall \<Rightarrow> 'w VoiceCall" where
  "cleanup c =
     (let c1 = c\<lparr>peersRef := []\<rparr>;
          c2 = (case localStreamRef c1 of
                  None \<Rightarrow> c1
                | Some a \<Rightarrow>
                    c1\<lparr>media := (if a < length (media c1)
                                  then (media c1)[a := map stop (media c1 ! a)] else media c1),
                       localStreamRef := None, localStream := None\<rparr>)
      in c2\<lparr>remoteStreams := [], remoteAudioRefs := []\<rparr>)"

definition handleEndCall :: "'w VoiceCall \<Rightarrow> 'w VoiceCall" where
  "handleEndCall c =
     (cleanup c)\<lparr>navigated := Some (''/group/'' @ (case groupId c of None \<Rightarrow> ''undefined'' | Some g \<Rightarrow> g))\<rparr>"

text \<open>
  The function returned by the first effect, which React runs when the component
  unmounts (and before the effect runs again).
\<close>

definition effect_cleanup :: "'w VoiceCall \<Rightarrow> 'w VoiceCall" where
  "effect_cleanup c =
     cleanup (if truthy (groupId c) then c\<lparr>wsService := snd (endCall (wsService c))\<rparr> else c)"

text \<open>
  The listener effect: unless \<^verbatim>\<open>groupId\<close> is missing, it registers its
  \<^verbatim>\<open>handleWebRTCMessage\<close> closure \<open>cb\<close> for six events and returns a function that
  unsubscribes it from the same six, which React runs when the component unmounts (and
  before the effect runs again). As a listener the closure counts by its identity; what
  it does with a message is \<open>handleWebRTCMessage\<close> above.
\<close>

definition listen_effect :: "'w callback \<Rightarrow> 'w VoiceCall \<Rightarrow> 'w VoiceCall" where
  "listen_effect cb c =
     (if \<not> truthy (groupId c) then c\<lparr>listening := None\<rparr>
      else c\<lparr>wsService :=
               subscribe_all
                 [(''webrtc_offer'', cb), (''webrtc_answer'', cb), (''webrtc_ice_candidate'', cb),
                  (''user_joined'', cb), (''call_participant_ready'', cb),
                  (''call_participants_list'', cb)]
                 (wsService c),
             listening := Some cb\<rparr>)"

definition listen_cleanup :: "'w VoiceCall \<Rightarrow> 'w VoiceCall" where
  "listen_cleanup c =
     (case listening c of
        None \<Rightarrow> c
      | Some cb \<Rightarrow>
          c\<lparr>wsService :=
               unsubscribe_all
                 [(''webrtc_offer'', cb), (''webrtc_answer'', cb), (''webrtc_ice_candidate'', cb),
                  (''user_joined'', cb), (''call_participant_ready'', cb),
                  (''call_participants_list'', cb)]
                 (wsService c),
            listening := None\<rparr>)"

text \<open>
  Ending a call: the button handler, then the unmount that the navigation causes,
  which runs the cleanup functions of the two effects in the order of the effects.
  The component's state and refs are discarded with the instance; the shared service
  and the browser's track objects (\<open>media\<close>) live on.
\<close>

definition end_call :: "'w VoiceCall \<Rightarrow> 'w VoiceCall" where
  "end_call c = listen_cleanup (effect_cleanup (handleEndCall c))"

subsection \<open>Observations and a running call\<close>

text \<open>The frames written so far to the socket the service holds.\<close>

definition frames_out :: "'w VoiceCall \<Rightarrow> out_msg list" where
  "frames_out c =
     (case ws (wsService c) of
        None \<Rightarrow> []
      | Some i \<Rightarrow> if i < length (sockets (wsService c))
                  then sock_sent (sockets (wsService c) ! i) else [])"

text \<open>A connection after a successful \<^verbatim>\<open>setLocalDescription(offer)\<close>.\<close>

definition offering :: "sdp \<Rightarrow> peer \<Rightarrow> peer" where
  "offering d pc = pc\<lparr>signalingState := HaveLocalOffer, localDescription := Some (Offer, d)\<rparr>"

text \<open>The delay \<^verbatim>\<open>500 + (index * 200)\<close> for each position of a list.\<close>

definition staggered :: "uid list \<Rightarrow> (nat \<times> uid) list" where
  "staggered ps = map (\<lambda>(i, p). (500 + i * 200, p)) (enumerate 0 ps)"

text \<open>
  A voice call in group \<open>g1\<close> as user \<open>u1\<close>, on an open connection, just after the
  microphone was granted; a browser that accepts everything and one that refuses
  everything.
\<close>

definition mic :: track where
  "mic = \<lparr>kind = Audio, enabled = True, ended = False\<rparr>"

definition ready_call :: "unit VoiceCall" where
  "ready_call =
     requestMediaAccess (GotStream [mic])
       (mount (Some ''g1'') False (Some ''u1'') ''Me''
          (run [Connect ''g1'', SockOpened 0] (constructor ''http:'' ''localhost'' (\<lambda>_. False) ())))"

definition willing :: browser where
  "willing = \<lparr>created = Some ''v=0'', sld_ok = True, srd_ok = True, ice_ok = True\<rparr>"

definition refusing :: browser where
  "refusing = \<lparr>created = None, sld_ok = False, srd_ok = False, ice_ok = False\<rparr>"

text \<open>
  The same call as a user goes through it on a first visit, the listener effect
  included: the component mounts and subscribes; the permission prompt is answered and
  the stream requested at mount arrives; the permission having changed to granted,
  the \<^verbatim>\<open>onchange\<close> handler requests a stream again and a second one arrives; an
  offer goes out to \<open>u2\<close>.
\<close>

definition webrtc_listener :: "unit callback" where
  "webrtc_listener = \<lparr>cb_id = 7, cb_run = (\<lambda>d w. Returned w)\<rparr>"

definition first_visit_call :: "unit VoiceCall" where
  "first_visit_call =
     createOfferForUser willing ''u2''
       (permission_onchange ''granted'' (GotStream [mic])
          (requestMediaAccess (GotStream [mic])
             (listen_effect webrtc_listener
                (mount (Some ''g1'') False (Some ''u1'') ''Me''
                   (run [Connect ''g1'', SockOpened 0]
                      (constructor ''http:'' ''localhost'' (\<lambda>_. False) ()))))))"

definition offered_u2 :: peer where
  "offered_u2 =
     \<lparr> signalingState = HaveLocalOffer, connectionState = New,
       localDescription = Some (Offer, ''v=0''), remoteDescription = None,
       senders = [(0, 0)], iceCandidates = [] \<rparr>"

section \<open>Properties of the transport channel\<close>

subsection \<open>Frame lemmas\<close>

lemma write_frame_sent:
  "i < length (sockets s) \<Longrightarrow>
   sock_sent (sockets (write_frame i d s) ! i) = sock_sent (sockets s ! i) @ [d]"
  by (simp add: write_frame_def)

lemma opened_example:
  "run [Connect ''g1'', SockOpened 0] (constructor ''http:'' ''localhost'' (\<lambda>_. False) w) =
     \<lparr> ws = Some 0, reconnectAttempts = 0, maxReconnectAttempts = 5, reconnectDelay = 1000,
       listeners = Map.empty, isConnecting = False, getToken = None,
       sockets = [\<lparr>sock_url = ''ws://localhost:8000/ws/g1'', sock_state = OPEN,
                   sock_sent = [], sock_group = ''g1''\<rparr>],
       timers = [], awaiting = [],
       location_protocol = ''http:'', location_hostname = ''localhost'',
       rejects_url = (\<lambda>_. False), world = w,
       emitted = [''connected''], invoked = [] \<rparr>"
  by (simp add: connect_def isConnected_def constructor_def open_socket_def wsUrl_def
      sock_opened_def set_state_def onopen_def emit_def)

lemma call_listener_invoked:
  "invoked (call_listener ev d cb s) =
     invoked s @ [(ev, cb_id cb, case cb_run cb d (world s) of Returned _ \<Rightarrow> False | Threw _ \<Rightarrow> True)]"
  by (simp add: call_listener_def split: outcome.split)

lemma call_listener_world: "world (call_listener ev d cb s) = after (cb_run cb d (world s))"
  by (simp add: call_listener_def split: outcome.split)

lemma forEach_invoked_ids:
  "map (fst \<circ> snd) (invoked (forEach_listener ev d cbs s)) =
     map (fst \<circ> snd) (invoked s) @ map cb_id cbs"
  by (induction cbs arbitrary: s) (simp_all add: call_listener_invoked)

lemma forEach_world:
  "world (forEach_listener ev d cbs s) = foldl (\<lambda>w cb. after (cb_run cb d w)) (world s) cbs"
  by (induction cbs arbitrary: s) (simp_all add: call_listener_world)

lemma registered_on:
  "registered ev (on e cb s) = (if e = ev then registered ev s @ [cb] else registered ev s)"
  by (simp add: registered_def on_def)

lemma registered_subscribe_all:
  "registered ev (subscribe_all regs s) =
     registered ev s @ map snd (filter (\<lambda>r. fst r = ev) regs)"
  by (induction regs arbitrary: s) (auto simp: registered_on)

lemma emit_invoked_ids:
  "map (fst \<circ> snd) (invoked (emit ev d s)) =
     map (fst \<circ> snd) (invoked s) @ map cb_id (registered ev s)"
  by (simp add: emit_def registered_def forEach_invoked_ids split: option.split)

lemma emit_world:
  "world (emit ev d s) = foldl (\<lambda>w cb. after (cb_run cb d w)) (world s) (registered ev s)"
  by (simp add: emit_def registered_def forEach_world split: option.split)

lemma subscribe_all_traces:
  "invoked (subscribe_all regs s) = invoked s \<and> world (subscribe_all regs s) = world s"
  by (induction regs arbitrary: s) (auto simp: on_def)

subsection \<open>Sending\<close>

text \<open>
  C7. \<^verbatim>\<open>send\<close> returns \<open>True\<close> exactly when the connection is open
  (\<open>isConnected\<close>: a handle is held and its ready state is \<open>OPEN\<close>). In that case the
  message is written to the socket behind the handle, after the frames already
  written; otherwise the state is left as it was. \<^verbatim>\<open>send\<close> is a total function to a
  boolean and a state: the source has no raising statement on this path, since the
  guard keeps \<^verbatim>\<open>ws.send\<close> away from a socket that is not open and the objects sent
  always serialise.
\<close>

theorem send_transmits_iff_open:
  "fst (send d s) = isConnected s \<and>
   (isConnected s \<longrightarrow>
      (\<exists>i. ws s = Some i \<and> snd (send d s) = write_frame i d s \<and>
           sock_sent (sockets (snd (send d s)) ! i) = sock_sent (sockets s ! i) @ [d])) \<and>
   (\<not> isConnected s \<longrightarrow> snd (send d s) = s)"
  by (auto simp: send_def isConnected_def write_frame_sent split: option.splits)

text \<open>
  On an open connection the message goes out and \<open>True\<close> comes back; on the service as
  constructed, never connected, \<open>False\<close> comes back and nothing changes.
\<close>

theorem send_transmits_iff_open_witness:
  "isConnected (run [Connect ''g1'', SockOpened 0] (constructor ''http:'' ''localhost'' (\<lambda>_. False) ())) \<and>
   fst (send (ChatMessage ''hi'')
          (run [Connect ''g1'', SockOpened 0] (constructor ''http:'' ''localhost'' (\<lambda>_. False) ()))) \<and>
   map sock_sent (sockets (snd (send (ChatMessage ''hi'')
          (run [Connect ''g1'', SockOpened 0] (constructor ''http:'' ''localhost'' (\<lambda>_. False) ()))))) =
     [[ChatMessage ''hi'']] \<and>
   \<not> isConnected (constructor ''http:'' ''localhost'' (\<lambda>_. False) ()) \<and>
   \<not> fst (send (ChatMessage ''hi'') (constructor ''http:'' ''localhost'' (\<lambda>_. False) ())) \<and>
   snd (send (ChatMessage ''hi'') (constructor ''http:'' ''localhost'' (\<lambda>_. False) ())) =
     constructor ''http:'' ''localhost'' (\<lambda>_. False) ()"
proof -
  let ?c = "constructor ''http:'' ''localhost'' (\<lambda>_. False) ()"
  let ?o = "run [Connect ''g1'', SockOpened 0] ?c"
  let ?m = "ChatMessage ''hi''"
  have o: "isConnected ?o"
    unfolding opened_example by (simp add: isConnected_def)
  have c: "\<not> isConnected ?c"
    by (simp add: isConnected_def constructor_def)
  from send_transmits_iff_open [of ?m ?o] o
  have 1: "fst (send ?m ?o)"
    and 2: "\<exists>i. ws ?o = Some i \<and> snd (send ?m ?o) = write_frame i ?m ?o"
    by auto
  from 2 have 3: "snd (send ?m ?o) = write_frame 0 ?m ?o"
    unfolding opened_example by auto
  have 4: "map sock_sent (sockets (snd (send ?m ?o))) = [[?m]]"
    unfolding 3 unfolding opened_example by (simp add: write_frame_def)
  from send_transmits_iff_open [of ?m ?c] c
  have 5: "\<not> fst (send ?m ?c)" "snd (send ?m ?c) = ?c"
    by auto
  show ?thesis using o c 1 4 5 by blast
qed

subsection \<open>Dispatch\<close>

text \<open>
  C8. Let any listeners be registered, and let \<open>regs\<close> be further registrations made
  with \<^verbatim>\<open>on\<close>, for any events. When \<open>ev\<close> is then emitted, the listeners called are
  exactly those registered for \<open>ev\<close>, each once, in the order of their registration:
  the earlier ones first, then those of \<open>regs\<close>. This holds whatever the listeners do:
  one that throws is followed by the next, which starts from the world the thrower
  left behind. (A listener acts on the world outside the service; it does not
  subscribe or unsubscribe during the dispatch.)
\<close>

theorem emit_invokes_all_in_order:
  "map (fst \<circ> snd) (invoked (emit ev d (subscribe_all regs s))) =
     map (fst \<circ> snd) (invoked s) @ map cb_id (registered ev s) @
     map (cb_id \<circ> snd) (filter (\<lambda>r. fst r = ev) regs) \<and>
   world (emit ev d (subscribe_all regs s)) =
     foldl (\<lambda>w cb. after (cb_run cb d w)) (world s)
       (registered ev s @ map snd (filter (\<lambda>r. fst r = ev) regs))"
  by (simp add: emit_invoked_ids emit_world registered_subscribe_all subscribe_all_traces)

text \<open>
  Three listeners of \<^verbatim>\<open>message\<close>, each adding its number to a log; the second
  throws after doing so. All three are called, in order, the third after the thrower.
\<close>

theorem emit_invokes_all_in_order_witness:
  "invoked (emit ''message'' NoPayload
     (subscribe_all
        [(''message'', \<lparr>cb_id = 1, cb_run = (\<lambda>d w. Returned (w @ [1]))\<rparr>),
         (''error'', \<lparr>cb_id = 9, cb_run = (\<lambda>d w. Returned (w @ [9]))\<rparr>),
         (''message'', \<lparr>cb_id = 2, cb_run = (\<lambda>d w. Threw (w @ [2]))\<rparr>),
         (''message'', \<lparr>cb_id = 3, cb_run = (\<lambda>d w. Returned (w @ [3]))\<rparr>)]
        (constructor ''http:'' ''localhost'' (\<lambda>_. False) ([] :: nat list)))) =
     [(''message'', 1, False), (''message'', 2, True), (''message'', 3, False)] \<and>
   world (emit ''message'' NoPayload
     (subscribe_all
        [(''message'', \<lparr>cb_id = 1, cb_run = (\<lambda>d w. Returned (w @ [1]))\<rparr>),
         (''error'', \<lparr>cb_id = 9, cb_run = (\<lambda>d w. Returned (w @ [9]))\<rparr>),
         (''message'', \<lparr>cb_id = 2, cb_run = (\<lambda>d w. Threw (w @ [2]))\<rparr>),
         (''message'', \<lparr>cb_id = 3, cb_run = (\<lambda>d w. Returned (w @ [3]))\<rparr>)]
        (constructor ''http:'' ''localhost'' (\<lambda>_. False) ([] :: nat list)))) = [1, 2, 3]"
proof -
  define C where "C = constructor ''http:'' ''localhost'' (\<lambda>_. False) ([] :: nat list)"
  define R :: "(string \<times> nat list callback) list" where "R =
        [(''message'', \<lparr>cb_id = 1, cb_run = (\<lambda>d w. Returned (w @ [1]))\<rparr>),
         (''error'', \<lparr>cb_id = 9, cb_run = (\<lambda>d w. Returned (w @ [9]))\<rparr>),
         (''message'', \<lparr>cb_id = 2, cb_run = (\<lambda>d w. Threw (w @ [2]))\<rparr>),
         (''message'', \<lparr>cb_id = 3, cb_run = (\<lambda>d w. Returned (w @ [3]))\<rparr>)]"
  have c: "invoked C = []" "world C = []" "registered ''message'' C = []"
    by (simp_all add: C_def constructor_def registered_def)
  from emit_invokes_all_in_order [of "''message''" NoPayload R C]
  have 1: "map (fst \<circ> snd) (invoked (emit ''message'' NoPayload (subscribe_all R C))) = [1, 2, 3]"
    and 2: "world (emit ''message'' NoPayload (subscribe_all R C)) = [1, 2, 3]"
    by (simp_all add: c R_def)
  have 3: "invoked (emit ''message'' NoPayload (subscribe_all R C)) =
      [(''message'', 1, False), (''message'', 2, True), (''message'', 3, False)]"
    by (simp add: R_def C_def constructor_def on_def emit_def call_listener_def)
  show ?thesis
    using 2 3 unfolding R_def C_def by simp
qed

section \<open>Properties of the call component\<close>

subsection \<open>Frame lemmas\<close>

lemma ws_send_alt:
  "ws_send d c = (fst (send d (wsService c)), c\<lparr>wsService := snd (send d (wsService c))\<rparr>)"
  by (simp add: ws_send_def split: prod.split)

lemma isConnected_send: "isConnected (snd (send d s)) = isConnected s"
  by (auto simp: send_def isConnected_def write_frame_def split: option.splits)

lemma send_frame:
  "ws (snd (send d s)) = ws s"
  "map sock_state (sockets (snd (send d s))) = map sock_state (sockets s)"
  "listeners (snd (send d s)) = listeners s"
  by (auto simp: send_def write_frame_def map_update list_update_same_conv split: option.splits)

lemma ws_send_fields:
  "peersRef (snd (ws_send d c)) = peersRef c"
  "localStreamRef (snd (ws_send d c)) = localStreamRef c"
  "media (snd (ws_send d c)) = media c"
  "callTimers (snd (ws_send d c)) = callTimers c"
  "groupId (snd (ws_send d c)) = groupId c"
  "isConnected (wsService (snd (ws_send d c))) = isConnected (wsService c)"
  by (simp_all add: ws_send_alt isConnected_send)

lemma frames_out_cong: "wsService c' = wsService c \<Longrightarrow> frames_out c' = frames_out c"
  by (simp add: frames_out_def split: option.split)

lemma frames_out_send:
  "frames_out (snd (ws_send d c)) =
     (if isConnected (wsService c) then frames_out c @ [d] else frames_out c)"
  by (auto simp: frames_out_def ws_send_def send_def isConnected_def write_frame_def
      split: option.splits prod.splits)

lemma update_absent: "map_of al k = None \<Longrightarrow> AList.update k v al = al @ [(k, v)]"
  by (induction al) (auto split: if_splits)

lemma update_last:
  "map_of al k = None \<Longrightarrow> AList.update k v' (al @ [(k, v)]) = al @ [(k, v')]"
  by (induction al) (auto split: if_splits)

lemma new_peer_state: "signalingState (new_peer c) = Stable"
  by (simp add: new_peer_def)

lemma new_peer_cong:
  "localStreamRef c' = localStreamRef c \<Longrightarrow> media c' = media c \<Longrightarrow> new_peer c' = new_peer c"
  by (simp add: new_peer_def split: option.split)

subsection \<open>The running call\<close>

lemma ready_call_fields:
  "peersRef ready_call = []" "localStreamRef ready_call = Some 0"
  "localStream ready_call = Some 0" "media ready_call = [[mic]]"
  "isMuted ready_call = False" "groupId ready_call = Some ''g1''"
  "user_id ready_call = Some ''u1''"
  "participants ready_call = [(''u1'', \<lparr>name = ''Me'', muted = False\<rparr>)]"
  "callTimers ready_call = []" "callConnected ready_call"
  "permissionStatus ready_call = Granted"
  by (simp_all add: ready_call_def requestMediaAccess_def mount_def ws_send_alt Let_def)

lemma ready_call_service:
  "wsService ready_call =
     write_frame 0 (ParticipantReady (Some ''u1'') (Some ''g1''))
       (run [Connect ''g1'', SockOpened 0] (constructor ''http:'' ''localhost'' (\<lambda>_. False) ()))"
  unfolding ready_call_def requestMediaAccess_def opened_example
  by (simp add: mount_def ws_send_def Let_def send_def)

lemma ready_call_sockets:
  "ws (wsService ready_call) = Some 0"
  "sockets (wsService ready_call) =
     [\<lparr>sock_url = ''ws://localhost:8000/ws/g1'', sock_state = OPEN,
       sock_sent = [ParticipantReady (Some ''u1'') (Some ''g1'')], sock_group = ''g1''\<rparr>]"
  unfolding ready_call_service opened_example by (simp_all add: write_frame_def)

lemma ready_call_connected: "isConnected (wsService ready_call)"
  by (simp add: isConnected_def ready_call_sockets)

lemma ready_call_frames: "frames_out ready_call = [ParticipantReady (Some ''u1'') (Some ''g1'')]"
  by (simp add: frames_out_def ready_call_sockets)

lemma new_peer_ready:
  "new_peer ready_call =
     \<lparr> signalingState = Stable, connectionState = New, localDescription = None,
       remoteDescription = None, senders = [(0, 0)], iceCandidates = [] \<rparr>"
  by (simp add: new_peer_def ready_call_fields)

lemma offering_peers: "peersRef (createOfferForUser willing ''u2'' ready_call) = [(''u2'', offered_u2)]"
  by (simp add: createOfferForUser_def createOfferForUser_body_def ready_call_fields
      createPeerConnection_def new_peer_ready offer_try_def pc_createOffer_def
      pc_setLocalDescription_def willing_def catch_delete_def ws_send_fields offered_u2_def)

lemma createOfferForUser_media:
  "localStreamRef (createOfferForUser b u c) = localStreamRef c \<and>
   media (createOfferForUser b u c) = media c"
  by (auto simp: createOfferForUser_def createOfferForUser_body_def createPeerConnection_def
      offer_try_def catch_delete_def ws_send_fields split: option.splits)

lemma offering_stream: "localStreamRef (createOfferForUser willing ''u2'' ready_call) = Some 0"
  by (simp add: createOfferForUser_media ready_call_fields)

subsection \<open>Offers and answers\<close>

text \<open>
  C2. When an offer from \<open>P\<close> arrives while \<open>P\<close> has an entry whose signaling state is
  not \<open>stable\<close> (\<open>have-local-offer\<close> in particular), \<^verbatim>\<open>handleOffer\<close>, and with it
  the dispatch of the \<^verbatim>\<open>webrtc_offer\<close> message, leaves the whole state as it was: the
  entry keeps its descriptions and its state, no answer is created, and nothing is
  written to the transport.
\<close>

theorem handleOffer_drops_on_glare:
  "map_of (peersRef c) P = Some pc \<Longrightarrow> signalingState pc \<noteq> Stable \<Longrightarrow>
   handleOffer b offer P c = c \<and> handleWebRTCMessage b (InOffer offer P) c = c"
  by (simp add: handleWebRTCMessage_def handleOffer_def handleOffer_body_def catch_delete_def)

text \<open>
  In the running call an offer was sent to \<open>u2\<close>; an offer from \<open>u2\<close> that arrives
  before the answer is dropped.
\<close>

theorem handleOffer_drops_on_glare_witness:
  "map_of (peersRef (createOfferForUser willing ''u2'' ready_call)) ''u2'' = Some offered_u2 \<and>
   signalingState offered_u2 = HaveLocalOffer \<and>
   handleOffer willing ''their offer'' ''u2'' (createOfferForUser willing ''u2'' ready_call) =
     createOfferForUser willing ''u2'' ready_call"
proof -
  let ?c = "createOfferForUser willing ''u2'' ready_call"
  have 1: "map_of (peersRef ?c) ''u2'' = Some offered_u2"
    by (simp add: offering_peers)
  have 2: "signalingState offered_u2 = HaveLocalOffer"
    by (simp add: offered_u2_def)
  then have 3: "signalingState offered_u2 \<noteq> Stable"
    by simp
  from handleOffer_drops_on_glare [OF 1 3] 1 2 show ?thesis
    by simp
qed

text \<open>
  C6. An answer from \<open>P\<close> is handed to \<^verbatim>\<open>setRemoteDescription\<close> exactly when \<open>P\<close> has
  an entry in state \<open>have-local-offer\<close>. Then, the browser accepting it, the entry
  holds the answer as its remote description and is \<open>stable\<close>, and nothing else
  changes (when the browser rejects it, the entry is deleted). When \<open>P\<close> has no entry,
  or an entry in any other state, the whole state is left as it was.
\<close>

theorem handleAnswer_precondition:
  "(\<forall>pc. map_of (peersRef c) P = Some pc \<and> signalingState pc = HaveLocalOffer \<and> srd_ok b \<longrightarrow>
       handleAnswer b answer P c =
         c\<lparr>peersRef := AList.update P
              (pc\<lparr>signalingState := Stable, remoteDescription := Some (Answer, answer)\<rparr>)
              (peersRef c)\<rparr>) \<and>
   (\<forall>pc. map_of (peersRef c) P = Some pc \<and> signalingState pc = HaveLocalOffer \<and> \<not> srd_ok b \<longrightarrow>
       handleAnswer b answer P c = c\<lparr>peersRef := AList.delete P (peersRef c)\<rparr>) \<and>
   (map_of (peersRef c) P = None \<longrightarrow> handleAnswer b answer P c = c) \<and>
   (\<forall>pc. map_of (peersRef c) P = Some pc \<and> signalingState pc \<noteq> HaveLocalOffer \<longrightarrow>
       handleAnswer b answer P c = c)"
  by (auto simp: handleAnswer_def handleAnswer_body_def catch_delete_def accept_try_def
      pc_setRemoteDescription_def)

text \<open>
  The answer of \<open>u2\<close> to the offer of the running call makes the entry stable; an
  answer from \<open>u9\<close>, who has no entry, changes nothing; so does a second answer from
  \<open>u2\<close>, whose entry is stable by then.
\<close>

theorem handleAnswer_precondition_witness:
  "map_of (peersRef (createOfferForUser willing ''u2'' ready_call)) ''u2'' = Some offered_u2 \<and>
   signalingState offered_u2 = HaveLocalOffer \<and> srd_ok willing \<and>
   peersRef (handleAnswer willing ''their answer'' ''u2'' (createOfferForUser willing ''u2'' ready_call)) =
     [(''u2'', offered_u2\<lparr>signalingState := Stable, remoteDescription := Some (Answer, ''their answer'')\<rparr>)] \<and>
   map_of (peersRef (createOfferForUser willing ''u2'' ready_call)) ''u9'' = None \<and>
   handleAnswer willing ''their answer'' ''u9'' (createOfferForUser willing ''u2'' ready_call) =
     createOfferForUser willing ''u2'' ready_call \<and>
   handleAnswer willing ''again'' ''u2''
       (handleAnswer willing ''their answer'' ''u2'' (createOfferForUser willing ''u2'' ready_call)) =
     handleAnswer willing ''their answer'' ''u2'' (createOfferForUser willing ''u2'' ready_call)"
proof -
  let ?c = "createOfferForUser willing ''u2'' ready_call"
  let ?st = "offered_u2\<lparr>signalingState := Stable, remoteDescription := Some (Answer, ''their answer'')\<rparr>"
  have p: "peersRef ?c = [(''u2'', offered_u2)]"
    by (simp add: offering_peers)
  have 1: "map_of (peersRef ?c) ''u2'' = Some offered_u2"
    by (simp add: p)
  have 2: "signalingState offered_u2 = HaveLocalOffer"
    by (simp add: offered_u2_def)
  have 3: "srd_ok willing"
    by (simp add: willing_def)
  have 4: "map_of (peersRef ?c) ''u9'' = None"
    by (simp add: p)
  from handleAnswer_precondition [of ?c "''u2''" willing "''their answer''"] 1 2 3
  have 5: "handleAnswer willing ''their answer'' ''u2'' ?c =
             ?c\<lparr>peersRef := AList.update ''u2'' ?st (peersRef ?c)\<rparr>"
    by blast
  have 6: "peersRef (handleAnswer willing ''their answer'' ''u2'' ?c) = [(''u2'', ?st)]"
    unfolding 5 by (simp add: p)
  from handleAnswer_precondition [of ?c "''u9''" willing "''their answer''"] 4
  have 7: "handleAnswer willing ''their answer'' ''u9'' ?c = ?c"
    by blast
  let ?d = "handleAnswer willing ''their answer'' ''u2'' ?c"
  have 8: "map_of (peersRef ?d) ''u2'' = Some ?st" "signalingState ?st \<noteq> HaveLocalOffer"
    by (simp_all add: 6)
  from handleAnswer_precondition [of ?d "''u2''" willing "''again''"] 8
  have 9: "handleAnswer willing ''again'' ''u2'' ?d = ?d"
    by blast
  show ?thesis
    using 1 2 3 4 6 7 9 by simp
qed

subsection \<open>Exceptions\<close>

lemma offer_try_others: "offer_try b u pc c = Raised c' \<Longrightarrow> peersRef c' = peersRef c"
  by (auto simp: offer_try_def split: option.splits)

lemma answer_try_others:
  "answer_try b d u pc c = Raised c' \<Longrightarrow> Q \<noteq> u \<Longrightarrow>
   map_of (peersRef c') Q = map_of (peersRef c) Q"
  by (auto simp: answer_try_def Let_def update_conv' split: option.splits)

lemma accept_try_others: "accept_try b a u pc c = Raised c' \<Longrightarrow> peersRef c' = peersRef c"
  by (auto simp: accept_try_def split: option.splits)

lemma createOffer_body_others:
  "createOfferForUser_body b P c = Raised c' \<Longrightarrow> Q \<noteq> P \<Longrightarrow>
   map_of (peersRef c') Q = map_of (peersRef c) Q"
  by (auto simp: createOfferForUser_body_def createPeerConnection_def update_conv'
      dest!: offer_try_others split: if_splits option.splits)

lemma handleOffer_body_others:
  "handleOffer_body b d P c = Raised c' \<Longrightarrow> Q \<noteq> P \<Longrightarrow>
   map_of (peersRef c') Q = map_of (peersRef c) Q"
  by (auto simp: handleOffer_body_def createPeerConnection_def update_conv'
      dest!: answer_try_others[where Q=Q] split: if_splits option.splits)

lemma handleAnswer_body_others:
  "handleAnswer_body b a P c = Raised c' \<Longrightarrow> peersRef c' = peersRef c"
  by (auto simp: handleAnswer_body_def dest!: accept_try_others split: if_splits option.splits)

lemma catch_delete_raised:
  "peersRef (catch_delete u (Raised c')) = AList.delete u (peersRef c')"
  by (simp add: catch_delete_def)

text \<open>
  C10. Whenever a statement of the \<^verbatim>\<open>try\<close> block of \<^verbatim>\<open>createOfferForUser\<close>, of
  \<^verbatim>\<open>handleOffer\<close> or of \<^verbatim>\<open>handleAnswer\<close> raises for participant \<open>P\<close>, the registry
  has no entry for \<open>P\<close> when the handler returns, and the entry of every other
  participant is what it was before the handler ran.
\<close>

theorem exception_deletes_only_that_entry:
  "(\<forall>c'. createOfferForUser_body b P c = Raised c' \<longrightarrow>
      map_of (peersRef (createOfferForUser b P c)) P = None \<and>
      (\<forall>Q. Q \<noteq> P \<longrightarrow> map_of (peersRef (createOfferForUser b P c)) Q = map_of (peersRef c) Q)) \<and>
   (\<forall>c'. handleOffer_body b d P c = Raised c' \<longrightarrow>
      map_of (peersRef (handleOffer b d P c)) P = None \<and>
      (\<forall>Q. Q \<noteq> P \<longrightarrow> map_of (peersRef (handleOffer b d P c)) Q = map_of (peersRef c) Q)) \<and>
   (\<forall>c'. handleAnswer_body b d P c = Raised c' \<longrightarrow>
      map_of (peersRef (handleAnswer b d P c)) P = None \<and>
      (\<forall>Q. Q \<noteq> P \<longrightarrow> map_of (peersRef (handleAnswer b d P c)) Q = map_of (peersRef c) Q))"
proof (intro conjI allI impI)
  fix c' assume r: "createOfferForUser_body b P c = Raised c'"
  show "map_of (peersRef (createOfferForUser b P c)) P = None"
    by (simp add: createOfferForUser_def r catch_delete_raised delete_conv')
  fix Q assume "Q \<noteq> P"
  then show "map_of (peersRef (createOfferForUser b P c)) Q = map_of (peersRef c) Q"
    using createOffer_body_others [OF r]
    by (simp add: createOfferForUser_def r catch_delete_raised delete_conv')
next
  fix c' assume r: "handleOffer_body b d P c = Raised c'"
  show "map_of (peersRef (handleOffer b d P c)) P = None"
    by (simp add: handleOffer_def r catch_delete_raised delete_conv')
  fix Q assume "Q \<noteq> P"
  then show "map_of (peersRef (handleOffer b d P c)) Q = map_of (peersRef c) Q"
    using handleOffer_body_others [OF r]
    by (simp add: handleOffer_def r catch_delete_raised delete_conv')
next
  fix c' assume r: "handleAnswer_body b d P c = Raised c'"
  show "map_of (peersRef (handleAnswer b d P c)) P = None"
    by (simp add: handleAnswer_def r catch_delete_raised delete_conv')
  fix Q assume "Q \<noteq> P"
  then show "map_of (peersRef (handleAnswer b d P c)) Q = map_of (peersRef c) Q"
    using handleAnswer_body_others [OF r]
    by (simp add: handleAnswer_def r catch_delete_raised delete_conv')
qed

text \<open>
  In the running call with its offer to \<open>u2\<close> pending, the browser refuses to create
  an offer for \<open>u3\<close>, refuses an offer received from \<open>u3\<close>, and refuses the answer of
  \<open>u2\<close>. Each time the entry concerned is gone afterwards; in the first two cases
  the entry of \<open>u2\<close> stays.
\<close>

theorem exception_deletes_only_that_entry_witness:
  "createOfferForUser_body refusing ''u3'' (createOfferForUser willing ''u2'' ready_call) =
     Raised ((createOfferForUser willing ''u2'' ready_call)
       \<lparr>peersRef := [(''u2'', offered_u2), (''u3'', new_peer ready_call)]\<rparr>) \<and>
   peersRef (createOfferForUser refusing ''u3'' (createOfferForUser willing ''u2'' ready_call)) =
     [(''u2'', offered_u2)] \<and>
   handleOffer_body refusing ''their offer'' ''u3'' (createOfferForUser willing ''u2'' ready_call) =
     Raised ((createOfferForUser willing ''u2'' ready_call)
       \<lparr>peersRef := [(''u2'', offered_u2), (''u3'', new_peer ready_call)]\<rparr>) \<and>
   peersRef (handleOffer refusing ''their offer'' ''u3'' (createOfferForUser willing ''u2'' ready_call)) =
     [(''u2'', offered_u2)] \<and>
   handleAnswer_body refusing ''their answer'' ''u2'' (createOfferForUser willing ''u2'' ready_call) =
     Raised (createOfferForUser willing ''u2'' ready_call) \<and>
   map_of (peersRef (handleAnswer refusing ''their answer'' ''u2''
     (createOfferForUser willing ''u2'' ready_call))) ''u2'' = None"
proof -
  let ?c = "createOfferForUser willing ''u2'' ready_call"
  let ?r = "?c\<lparr>peersRef := [(''u2'', offered_u2), (''u3'', new_peer ready_call)]\<rparr>"
  have p: "peersRef ?c = [(''u2'', offered_u2)]"
    by (simp add: offering_peers)
  have l: "localStreamRef ?c = Some 0"
    by (rule offering_stream)
  have n: "new_peer ?c = new_peer ready_call"
    by (rule new_peer_cong) (simp_all add: createOfferForUser_media)
  have 1: "createOfferForUser_body refusing ''u3'' ?c = Raised ?r"
    by (simp add: createOfferForUser_body_def p l createPeerConnection_def n offer_try_def
        pc_createOffer_def new_peer_state refusing_def)
  have 2: "handleOffer_body refusing ''their offer'' ''u3'' ?c = Raised ?r"
    by (simp add: handleOffer_body_def p l createPeerConnection_def n answer_try_def
        pc_setRemoteDescription_def new_peer_state refusing_def)
  have 3: "handleAnswer_body refusing ''their answer'' ''u2'' ?c = Raised ?c"
    by (simp add: handleAnswer_body_def p accept_try_def pc_setRemoteDescription_def
        refusing_def offered_u2_def)
  note t = exception_deletes_only_that_entry
  from t [where b = refusing and P = "''u3''" and c = ?c] 1
  have 4: "map_of (peersRef (createOfferForUser refusing ''u3'' ?c)) ''u3'' = None"
    by blast
  have "createOfferForUser refusing ''u3'' ?c = catch_delete ''u3'' (Raised ?r)"
    unfolding createOfferForUser_def [of refusing] 1 ..
  then have 5: "peersRef (createOfferForUser refusing ''u3'' ?c) = [(''u2'', offered_u2)]"
    by (simp add: catch_delete_raised)
  have "handleOffer refusing ''their offer'' ''u3'' ?c = catch_delete ''u3'' (Raised ?r)"
    unfolding handleOffer_def 2 ..
  then have 6: "peersRef (handleOffer refusing ''their offer'' ''u3'' ?c) = [(''u2'', offered_u2)]"
    by (simp add: catch_delete_raised)
  from t [where b = refusing and P = "''u2''" and c = ?c and d = "''their answer''"] 3
  have 7: "map_of (peersRef (handleAnswer refusing ''their answer'' ''u2'' ?c)) ''u2'' = None"
    by blast
  from t [where b = refusing and P = "''u3''" and c = ?c and d = "''their offer''"] 2
  have 8: "map_of (peersRef (handleOffer refusing ''their offer'' ''u3'' ?c)) ''u3'' = None"
    by blast
  show ?thesis
    using 1 2 3 4 5 6 7 8 by simp
qed


subsection \<open>Mute and video\<close>

lemma set_enabled_twice: "set_enabled k v a (set_enabled k w a m) = set_enabled k v a m"
proof -
  have "map (\<lambda>t. if kind t = k then t\<lparr>enabled := v\<rparr> else t)
          (map (\<lambda>t. if kind t = k then t\<lparr>enabled := w\<rparr> else t) xs) =
        map (\<lambda>t. if kind t = k then t\<lparr>enabled := v\<rparr> else t) xs" for xs :: "track list"
    by (induction xs) auto
  then show ?thesis
    by (simp add: set_enabled_def del: map_map)
qed

lemma toggleMute_fields:
  assumes "localStream c = Some a" "truthy (groupId c)"
  shows "media (toggleMute c) = set_enabled Audio (\<not> isMuted c) a (media c)"
    "isMuted (toggleMute c) = (\<not> isMuted c)"
    "localStream (toggleMute c) = Some a"
    "groupId (toggleMute c) = groupId c"
    "user_id (toggleMute c) = user_id c"
    "participants (toggleMute c) = participants c"
    "callConnected (toggleMute c) = callConnected c"
    "permissionStatus (toggleMute c) = permissionStatus c"
    "isConnected (wsService (toggleMute c)) = isConnected (wsService c)"
    "frames_out (toggleMute c) =
       (if isConnected (wsService c)
        then frames_out c @ [MuteStatus (user_id c) (\<not> isMuted c) (groupId c)]
        else frames_out c)"
proof -
  let ?c1 = "c\<lparr>media := set_enabled Audio (\<not> isMuted c) a (media c), isMuted := \<not> isMuted c\<rparr>"
  have t: "toggleMute c = snd (ws_send (MuteStatus (user_id c) (\<not> isMuted c) (groupId c)) ?c1)"
    using assms by (simp add: toggleMute_def Let_def)
  have f: "frames_out ?c1 = frames_out c"
    by (rule frames_out_cong) simp
  show "media (toggleMute c) = set_enabled Audio (\<not> isMuted c) a (media c)"
    "isMuted (toggleMute c) = (\<not> isMuted c)"
    "localStream (toggleMute c) = Some a"
    "groupId (toggleMute c) = groupId c"
    "user_id (toggleMute c) = user_id c"
    "participants (toggleMute c) = participants c"
    "callConnected (toggleMute c) = callConnected c"
    "permissionStatus (toggleMute c) = permissionStatus c"
    "isConnected (wsService (toggleMute c)) = isConnected (wsService c)"
    unfolding t using assms by (simp_all add: ws_send_alt isConnected_send)
  show "frames_out (toggleMute c) =
       (if isConnected (wsService c)
        then frames_out c @ [MuteStatus (user_id c) (\<not> isMuted c) (groupId c)]
        else frames_out c)"
    unfolding t by (simp add: frames_out_send f)
qed

text \<open>
  After two calls of \<^verbatim>\<open>toggleMute\<close> every audio track carries the value the
  \<open>isMuted\<close> flag had at the start, whatever the tracks carried before. After two
  calls of \<^verbatim>\<open>toggleVideo\<close>, and of the earlier \<^verbatim>\<open>toggleMute\<close>, the tracks carry
  the negation of the flag, which is what they carry while flag and tracks agree.
\<close>

lemma toggleMute_twice_media:
  "localStream c = Some a \<Longrightarrow>
   media (toggleMute (toggleMute c)) = set_enabled Audio (isMuted c) a (media c)"
  by (simp add: toggleMute_def Let_def ws_send_alt set_enabled_twice)

lemma toggleVideo_twice_media:
  "localStream c = Some a \<Longrightarrow>
   media (toggleVideo (toggleVideo c)) = set_enabled Video (\<not> isVideoOff c) a (media c)"
  by (simp add: toggleVideo_def set_enabled_twice)

lemma toggleMute_earlier_twice_media:
  "localStream c = Some a \<Longrightarrow>
   media (toggleMute_earlier (toggleMute_earlier c)) = set_enabled Audio (\<not> isMuted c) a (media c)"
  by (simp add: toggleMute_earlier_def set_enabled_twice)

text \<open>
  C4, evaluated on the running call, whose microphone track is enabled and whose
  \<open>isMuted\<close> flag is off. The first \<^verbatim>\<open>toggleMute\<close> sets the flag and leaves the
  track enabled; the second clears the flag and disables the track. So the track does
  not return to its value: it was enabled, and after two toggles it is disabled while
  the flag says unmuted. Each of the two calls writes one \<^verbatim>\<open>participant_mute_status\<close>
  frame.
\<close>

theorem toggleMute_twice_on_fresh_call:
  "map enabled (media ready_call ! 0) = [True] \<and> \<not> isMuted ready_call \<and>
   map enabled (media (toggleMute ready_call) ! 0) = [True] \<and> isMuted (toggleMute ready_call) \<and>
   map enabled (media (toggleMute (toggleMute ready_call)) ! 0) = [False] \<and>
   \<not> isMuted (toggleMute (toggleMute ready_call)) \<and>
   frames_out (toggleMute (toggleMute ready_call)) =
     frames_out ready_call @
       [MuteStatus (Some ''u1'') True (Some ''g1''), MuteStatus (Some ''u1'') False (Some ''g1'')]"
proof -
  have a: "localStream ready_call = Some 0" "truthy (groupId ready_call)"
    by (simp_all add: ready_call_fields)
  note 1 = toggleMute_fields [OF a]
  have b: "localStream (toggleMute ready_call) = Some 0" "truthy (groupId (toggleMute ready_call))"
    by (simp_all add: 1 ready_call_fields)
  note 2 = toggleMute_fields [OF b]
  show ?thesis
    by (simp add: 1 2 ready_call_fields ready_call_connected set_enabled_def mic_def)
qed

subsection \<open>Teardown\<close>

lemma cleanup_fields:
  "peersRef (cleanup c) = []"
  "localStream (cleanup c) = (if localStreamRef c = None then localStream c else None)"
  "localStreamRef (cleanup c) = None" "remoteStreams (cleanup c) = []"
  "wsService (cleanup c) = wsService c" "participants (cleanup c) = participants c"
  "isMuted (cleanup c) = isMuted c" "isVideoOff (cleanup c) = isVideoOff c"
  "callConnected (cleanup c) = callConnected c"
  "permissionStatus (cleanup c) = permissionStatus c"
  "groupId (cleanup c) = groupId c"
  by (simp_all add: cleanup_def Let_def split: option.split)

lemma cleanup_stops:
  "localStreamRef c = Some a \<Longrightarrow> a < length (media c) \<Longrightarrow>
   media (cleanup c) = (media c)[a := map stop (media c ! a)]"
  by (simp add: cleanup_def Let_def)

lemma cleanup_media_idle: "localStreamRef c = None \<Longrightarrow> media (cleanup c) = media c"
  by (simp add: cleanup_def Let_def)

lemma off_frame:
  "ws (off e cb s) = ws s" "sockets (off e cb s) = sockets s"
  by (simp_all add: off_def split: option.split)

lemma unsubscribe_all_frame:
  "ws (unsubscribe_all regs s) = ws s \<and> sockets (unsubscribe_all regs s) = sockets s"
  by (induction regs arbitrary: s) (auto simp: off_frame)

text \<open>
  The track objects after a call is ended are those that \<^verbatim>\<open>cleanup\<close> leaves when
  the button handler runs it: the second run, at the unmount, finds the ref empty, and
  unsubscribing touches no track. By \<open>cleanup_stops\<close> these are the tracks of
  the stream the ref held, and no others.
\<close>

lemma end_call_media: "media (end_call c) = media (cleanup c)"
proof -
  let ?h = "handleEndCall c"
  let ?e = "if truthy (groupId ?h) then ?h\<lparr>wsService := snd (endCall (wsService ?h))\<rparr> else ?h"
  have r: "localStreamRef ?e = None"
    by (simp add: handleEndCall_def cleanup_fields)
  have "media (cleanup ?e) = media ?e"
    by (rule cleanup_media_idle) (rule r)
  also have "\<dots> = media (cleanup c)"
    by (simp add: handleEndCall_def)
  finally have "media (effect_cleanup ?h) = media (cleanup c)"
    by (simp add: effect_cleanup_def)
  then show ?thesis
    by (simp add: end_call_def listen_cleanup_def split: option.split)
qed

text \<open>
  Whatever the call was doing, ending it empties the registry, the stream ref and the
  list of remote streams, and leaves the transport with the same handle and every
  socket in the same ready state: nothing is disconnected.
\<close>

lemma end_call_frame:
  "peersRef (end_call c) = [] \<and> localStreamRef (end_call c) = None \<and>
   remoteStreams (end_call c) = [] \<and>
   ws (wsService (end_call c)) = ws (wsService c) \<and>
   map sock_state (sockets (wsService (end_call c))) = map sock_state (sockets (wsService c)) \<and>
   isConnected (wsService (end_call c)) = isConnected (wsService c)"
proof -
  let ?h = "handleEndCall c"
  let ?e = "if truthy (groupId ?h) then ?h\<lparr>wsService := snd (endCall (wsService ?h))\<rparr> else ?h"
  let ?k = "effect_cleanup ?h"
  have k: "?k = cleanup ?e"
    by (simp add: effect_cleanup_def)
  have hs: "wsService ?h = wsService c"
    by (simp add: handleEndCall_def cleanup_fields)
  have w: "wsService ?e = wsService c \<or> wsService ?e = snd (send CallEnd (wsService c))"
    by (simp add: hs endCall_def)
  have svc: "ws (wsService ?e) = ws (wsService c) \<and>
     map sock_state (sockets (wsService ?e)) = map sock_state (sockets (wsService c))"
    using w by (auto simp: send_frame)
  have ks: "peersRef ?k = []" "localStreamRef ?k = None" "remoteStreams ?k = []"
    "wsService ?k = wsService ?e"
    unfolding k by (simp_all add: cleanup_fields)
  have l: "peersRef (listen_cleanup d) = peersRef d \<and>
     localStreamRef (listen_cleanup d) = localStreamRef d \<and>
     remoteStreams (listen_cleanup d) = remoteStreams d \<and>
     ws (wsService (listen_cleanup d)) = ws (wsService d) \<and>
     sockets (wsService (listen_cleanup d)) = sockets (wsService d)" for d :: "'a VoiceCall"
    by (simp add: listen_cleanup_def off_frame split: option.split)
  have a: "peersRef (end_call c) = [] \<and> localStreamRef (end_call c) = None \<and>
   remoteStreams (end_call c) = [] \<and>
   ws (wsService (end_call c)) = ws (wsService c) \<and>
   map sock_state (sockets (wsService (end_call c))) = map sock_state (sockets (wsService c))"
    unfolding end_call_def using svc by (simp add: l ks)
  have "sock_state (sockets (wsService (end_call c)) ! i) = sock_state (sockets (wsService c) ! i) \<and>
        length (sockets (wsService (end_call c))) = length (sockets (wsService c))"
    if "i < length (sockets (wsService c))" for i
  proof -
    have e: "map sock_state (sockets (wsService (end_call c))) = map sock_state (sockets (wsService c))"
      using a by simp
    have n: "length (sockets (wsService (end_call c))) = length (sockets (wsService c))"
      using e by (rule map_eq_imp_length_eq)
    have "map sock_state (sockets (wsService (end_call c))) ! i = map sock_state (sockets (wsService c)) ! i"
      using e by simp
    then show ?thesis using that n by simp
  qed
  moreover have "length (sockets (wsService (end_call c))) = length (sockets (wsService c))"
    using a by (metis length_map)
  ultimately have "isConnected (wsService (end_call c)) = isConnected (wsService c)"
    using a by (auto simp: isConnected_def split: option.split)
  with a show ?thesis by simp
qed

lemmas first_visit_defs = createOfferForUser_def createOfferForUser_body_def
  createPeerConnection_def new_peer_def offer_try_def pc_createOffer_def pc_setLocalDescription_def
  willing_def catch_delete_def permission_onchange_def requestMediaAccess_def listen_effect_def
  mount_def ws_send_alt send_def write_frame_def on_def off_def Let_def webrtc_listener_def
  end_call_def listen_cleanup_def effect_cleanup_def handleEndCall_def cleanup_def endCall_def
  registered_def isConnected_def frames_out_def mic_def stop_def

text \<open>
  C9, evaluated on the first-visit call. \<^verbatim>\<open>getUserMedia\<close> has delivered twice, once
  for the request made at mount and once for the request the permission's
  \<^verbatim>\<open>onchange\<close> handler made when the permission became granted:
  \<^verbatim>\<open>requestMediaAccess\<close> stores the second stream in \<^verbatim>\<open>localStreamRef\<close> over the
  first without stopping the first. Before the call is ended two streams exist, each
  with a live microphone track, the ref holds the second, \<open>u2\<close> is in the registry, the
  transport is open and the message handler is subscribed to its six events. After
  the call is ended the registry and the ref are empty, the transport is open on the
  same handle, the handler is unsubscribed from all six events and one
  \<^verbatim>\<open>call_end\<close> frame has gone out; but \<^verbatim>\<open>cleanup\<close> stops only the tracks of the
  stream in the ref, so the microphone track of the first stream has not ended: not
  every local media track has been stopped.
\<close>

theorem end_call_leaves_first_stream_live:
  "media first_visit_call = [[mic], [mic]] \<and> localStreamRef first_visit_call = Some 1 \<and>
   map fst (peersRef first_visit_call) = [''u2''] \<and>
   isConnected (wsService first_visit_call) \<and>
   map (\<lambda>e. registered e (wsService first_visit_call))
     [''webrtc_offer'', ''webrtc_answer'', ''webrtc_ice_candidate'', ''user_joined'',
      ''call_participant_ready'', ''call_participants_list''] = replicate 6 [webrtc_listener] \<and>
   peersRef (end_call first_visit_call) = [] \<and>
   localStreamRef (end_call first_visit_call) = None \<and>
   media (end_call first_visit_call) = [[mic], [stop mic]] \<and>
   map ended (concat (media (end_call first_visit_call))) = [False, True] \<and>
   isConnected (wsService (end_call first_visit_call)) \<and>
   ws (wsService (end_call first_visit_call)) = ws (wsService first_visit_call) \<and>
   map (\<lambda>e. registered e (wsService (end_call first_visit_call)))
     [''webrtc_offer'', ''webrtc_answer'', ''webrtc_ice_candidate'', ''user_joined'',
      ''call_participant_ready'', ''call_participants_list''] = replicate 6 [] \<and>
   frames_out (end_call first_visit_call) = frames_out first_visit_call @ [CallEnd]"
  unfolding first_visit_call_def opened_example
  by (simp add: first_visit_defs numeral_eq_Suc)

subsection \<open>The participants list\<close>

lemma forEach_participant_peers: "peersRef (forEach_participant i ps c) = peersRef c"
  by (induction ps arbitrary: i c) (simp_all add: fetchParticipantName_def)

lemma forEach_participant_timers:
  "callTimers (forEach_participant i ps c) =
     callTimers c @ map (\<lambda>(k, p). (500 + k * 200, p))
        (filter (\<lambda>(k, p). Some p \<noteq> user_id c \<and> map_of (peersRef c) p = None) (enumerate i ps))"
  by (induction ps arbitrary: i c) (simp_all add: fetchParticipantName_def)

lemma forEach_participant_rest:
  "localStreamRef (forEach_participant i ps c) = localStreamRef c \<and>
   media (forEach_participant i ps c) = media c \<and>
   wsService (forEach_participant i ps c) = wsService c \<and>
   groupId (forEach_participant i ps c) = groupId c"
  by (induction ps arbitrary: i c) (simp_all add: fetchParticipantName_def)

lemma list_timers:
  "localStreamRef c \<noteq> None \<Longrightarrow>
   callTimers (handleWebRTCMessage b (ParticipantsList (Some ps)) c) =
     callTimers c @ map (\<lambda>(k, p). (500 + k * 200, p))
        (filter (\<lambda>(k, p). Some p \<noteq> user_id c \<and> map_of (peersRef c) p = None) (enumerate 0 ps))"
  by (cases ps)
     (simp_all add: handleWebRTCMessage_def forEach_participant_timers del: forEach_participant.simps)

lemma list_rest:
  "peersRef (handleWebRTCMessage b (ParticipantsList (Some ps)) c) = peersRef c \<and>
   localStreamRef (handleWebRTCMessage b (ParticipantsList (Some ps)) c) = localStreamRef c \<and>
   media (handleWebRTCMessage b (ParticipantsList (Some ps)) c) = media c \<and>
   wsService (handleWebRTCMessage b (ParticipantsList (Some ps)) c) = wsService c \<and>
   groupId (handleWebRTCMessage b (ParticipantsList (Some ps)) c) = groupId c"
  by (simp add: handleWebRTCMessage_def forEach_participant_peers forEach_participant_rest
      del: forEach_participant.simps)

lemma createOffer_fresh:
  assumes "localStreamRef c \<noteq> None" "map_of (peersRef c) u = None" "created b = Some d" "sld_ok b"
  shows "createOfferForUser b u c =
           snd (ws_send (WebrtcOffer d u (groupId c))
                  (c\<lparr>peersRef := peersRef c @ [(u, offering d (new_peer c))]\<rparr>))"
  using assms
  by (cases "localStreamRef c")
     (simp_all add: createOfferForUser_def createOfferForUser_body_def createPeerConnection_def
        offer_try_def pc_createOffer_def pc_setLocalDescription_def catch_delete_def
        new_peer_state offering_def update_absent update_last)

lemma fire_offers:
  assumes "localStreamRef c \<noteq> None" "distinct ps"
    "\<forall>p \<in> set ps. map_of (peersRef c) p = None"
    "\<forall>p \<in> set ps. created (bs p) = Some (sd p) \<and> sld_ok (bs p)"
    "callTimers c = map (\<lambda>(k, p). (f k, p)) (enumerate i ps)"
  shows "peersRef (fire_timers (length ps) bs c) =
           peersRef c @ map (\<lambda>p. (p, offering (sd p) (new_peer c))) ps \<and>
         callTimers (fire_timers (length ps) bs c) = [] \<and>
         frames_out (fire_timers (length ps) bs c) =
           (if isConnected (wsService c)
            then frames_out c @ map (\<lambda>p. WebrtcOffer (sd p) p (groupId c)) ps
            else frames_out c)"
  using assms
proof (induction ps arbitrary: c i)
  case Nil
  then show ?case by simp
next
  case (Cons p ps)
  let ?c0 = "c\<lparr>callTimers := map (\<lambda>(k, p). (f k, p)) (enumerate (Suc i) ps)\<rparr>"
  let ?c1 = "createOfferForUser (bs p) p ?c0"
  have ft: "fire_timer bs c = ?c1"
    using Cons.prems(5) by (simp add: fire_timer_def)
  have c1: "?c1 = snd (ws_send (WebrtcOffer (sd p) p (groupId c))
                         (?c0\<lparr>peersRef := peersRef c @ [(p, offering (sd p) (new_peer ?c0))]\<rparr>))"
    using Cons.prems by (subst createOffer_fresh [where d = "sd p"]) simp_all
  have np: "new_peer ?c0 = new_peer c"
    by (rule new_peer_cong) simp_all
  have p1: "peersRef ?c1 = peersRef c @ [(p, offering (sd p) (new_peer c))]"
    unfolding c1 by (simp add: ws_send_fields np)
  have a1: "localStreamRef ?c1 \<noteq> None"
    unfolding c1 using Cons.prems(1) by (simp add: ws_send_fields)
  have a3: "\<forall>q \<in> set ps. map_of (peersRef ?c1) q = None"
    unfolding p1 using Cons.prems(2,3) by (auto simp: map_add_def split: option.splits)
  have a5: "callTimers ?c1 = map (\<lambda>(k, p). (f k, p)) (enumerate (Suc i) ps)"
    unfolding c1 by (simp add: ws_send_fields)
  have np1: "new_peer ?c1 = new_peer c"
    unfolding c1 by (rule new_peer_cong) (simp_all add: ws_send_fields)
  have g1: "groupId ?c1 = groupId c"
    unfolding c1 by (simp add: ws_send_fields)
  have f1: "frames_out ?c1 =
      (if isConnected (wsService c) then frames_out c @ [WebrtcOffer (sd p) p (groupId c)]
       else frames_out c)"
  proof -
    have "frames_out (?c0\<lparr>peersRef := peersRef c @ [(p, offering (sd p) (new_peer ?c0))]\<rparr>) =
          frames_out c"
      by (rule frames_out_cong) simp
    then show ?thesis
      unfolding c1 by (simp add: frames_out_send)
  qed
  have i1: "isConnected (wsService ?c1) = isConnected (wsService c)"
    unfolding c1 by (simp add: ws_send_fields)
  from Cons.IH [OF a1 _ a3 _ a5] Cons.prems(2,4)
  have IH: "peersRef (fire_timers (length ps) bs ?c1) =
              peersRef ?c1 @ map (\<lambda>p. (p, offering (sd p) (new_peer ?c1))) ps \<and>
            callTimers (fire_timers (length ps) bs ?c1) = [] \<and>
            frames_out (fire_timers (length ps) bs ?c1) =
              (if isConnected (wsService ?c1)
               then frames_out ?c1 @ map (\<lambda>p. WebrtcOffer (sd p) p (groupId ?c1)) ps
               else frames_out ?c1)"
    by simp
  show ?case
    using IH unfolding np1 g1 i1 f1 p1 by (simp add: ft)
qed

lemma staggered_facts:
  "length (staggered ps) = length ps \<and> map snd (staggered ps) = ps \<and>
   distinct (map fst (staggered ps))"
proof -
  have g: "map (\<lambda>x. 500 + fst x * 200) xs = map (\<lambda>k. 500 + k * 200) (map fst xs)"
    for xs :: "(nat \<times> uid) list"
    by (induction xs) simp_all
  have "map fst (staggered ps) = map (\<lambda>x. 500 + fst x * 200) (enumerate 0 ps)"
    by (simp add: staggered_def case_prod_unfold comp_def)
  then have 1: "map fst (staggered ps) = map (\<lambda>k. 500 + k * 200) [0 ..< length ps]"
    by (simp only: g map_fst_enumerate add_0)
  have "map snd (staggered ps) = map snd (enumerate 0 ps)"
    by (simp add: staggered_def case_prod_unfold comp_def)
  then have 2: "map snd (staggered ps) = ps"
    by (simp only: map_snd_enumerate)
  have "inj_on (\<lambda>k::nat. 500 + k * 200) (set [0 ..< length ps])"
    by (rule inj_onI) simp
  then have "distinct (map fst (staggered ps))"
    unfolding 1 by (simp add: distinct_map)
  then show ?thesis
    using 2 by (simp add: staggered_def)
qed

text \<open>
  C5. With local media acquired, a \<^verbatim>\<open>call_participants_list\<close> message arms one offer
  timer, at \<open>500 + 200 * index\<close> milliseconds, for each listed identity that is not the
  local user and has no registry entry, and none for the others; the registry is not
  changed by the message itself. When, in addition, the \<open>n\<close> listed identities are
  distinct, none is the local user, none has an entry and no other offer timer is
  armed: the timers armed are exactly \<open>n\<close>, at pairwise distinct delays, one per
  identity in list order; and once they have fired, the browser creating each offer,
  the registry has gained exactly one entry per listed identity, in state
  \<open>have-local-offer\<close> with that offer as local description, and, the transport being
  open, exactly \<open>n\<close> \<^verbatim>\<open>webrtc_offer\<close> frames were written, one addressed to each.
\<close>

theorem participants_list_offers:
  "(localStreamRef c \<noteq> None \<longrightarrow>
      callTimers (handleWebRTCMessage b (ParticipantsList (Some ps)) c) =
        callTimers c @ map (\<lambda>(k, p). (500 + k * 200, p))
          (filter (\<lambda>(k, p). Some p \<noteq> user_id c \<and> map_of (peersRef c) p = None) (enumerate 0 ps)) \<and>
      peersRef (handleWebRTCMessage b (ParticipantsList (Some ps)) c) = peersRef c) \<and>
   (localStreamRef c \<noteq> None \<and> distinct ps \<and> callTimers c = [] \<and>
    (\<forall>p \<in> set ps. Some p \<noteq> user_id c \<and> map_of (peersRef c) p = None) \<and>
    (\<forall>p \<in> set ps. created (bs p) = Some (sd p) \<and> sld_ok (bs p)) \<longrightarrow>
      callTimers (handleWebRTCMessage b (ParticipantsList (Some ps)) c) = staggered ps \<and>
      length (staggered ps) = length ps \<and> map snd (staggered ps) = ps \<and>
      distinct (map fst (staggered ps)) \<and>
      peersRef (fire_timers (length ps) bs (handleWebRTCMessage b (ParticipantsList (Some ps)) c)) =
        peersRef c @ map (\<lambda>p. (p, offering (sd p) (new_peer c))) ps \<and>
      callTimers (fire_timers (length ps) bs (handleWebRTCMessage b (ParticipantsList (Some ps)) c)) = [] \<and>
      frames_out (fire_timers (length ps) bs (handleWebRTCMessage b (ParticipantsList (Some ps)) c)) =
        (if isConnected (wsService c)
         then frames_out c @ map (\<lambda>p. WebrtcOffer (sd p) p (groupId c)) ps
         else frames_out c))"
proof (intro conjI impI)
  assume "localStreamRef c \<noteq> None"
  then show "callTimers (handleWebRTCMessage b (ParticipantsList (Some ps)) c) =
        callTimers c @ map (\<lambda>(k, p). (500 + k * 200, p))
          (filter (\<lambda>(k, p). Some p \<noteq> user_id c \<and> map_of (peersRef c) p = None) (enumerate 0 ps))"
    by (rule list_timers)
next
  show "peersRef (handleWebRTCMessage b (ParticipantsList (Some ps)) c) = peersRef c"
    by (simp add: list_rest)
next
  let ?c1 = "handleWebRTCMessage b (ParticipantsList (Some ps)) c"
  assume h: "localStreamRef c \<noteq> None \<and> distinct ps \<and> callTimers c = [] \<and>
    (\<forall>p \<in> set ps. Some p \<noteq> user_id c \<and> map_of (peersRef c) p = None) \<and>
    (\<forall>p \<in> set ps. created (bs p) = Some (sd p) \<and> sld_ok (bs p))"
  have all: "filter (\<lambda>(k, p). Some p \<noteq> user_id c \<and> map_of (peersRef c) p = None) (enumerate 0 ps) =
             enumerate 0 ps"
    using h by (auto simp: filter_id_conv in_set_enumerate_eq)
  have t: "callTimers ?c1 = staggered ps"
    using h by (simp add: list_timers all staggered_def)
  show "callTimers ?c1 = staggered ps"
    by (rule t)
  show "length (staggered ps) = length ps" "map snd (staggered ps) = ps"
    "distinct (map fst (staggered ps))"
    by (simp_all add: staggered_facts)
  have a1: "localStreamRef ?c1 \<noteq> None"
    using h by (simp add: list_rest)
  have a3: "\<forall>p \<in> set ps. map_of (peersRef ?c1) p = None"
    using h by (simp add: list_rest)
  have a4: "\<forall>p \<in> set ps. created (bs p) = Some (sd p) \<and> sld_ok (bs p)"
    using h by simp
  have a5: "callTimers ?c1 = map (\<lambda>(k, p). (500 + k * 200, p)) (enumerate 0 ps)"
    using t by (simp add: staggered_def)
  have d: "distinct ps"
    using h by simp
  have np: "new_peer ?c1 = new_peer c"
    by (rule new_peer_cong) (simp_all add: list_rest)
  have fo: "frames_out ?c1 = frames_out c"
    by (rule frames_out_cong) (simp add: list_rest)
  note r = fire_offers [OF a1 d a3 a4 a5]
  show "peersRef (fire_timers (length ps) bs ?c1) =
        peersRef c @ map (\<lambda>p. (p, offering (sd p) (new_peer c))) ps"
    using r by (simp add: list_rest np)
  show "callTimers (fire_timers (length ps) bs ?c1) = []"
    using r by simp
  show "frames_out (fire_timers (length ps) bs ?c1) =
        (if isConnected (wsService c)
         then frames_out c @ map (\<lambda>p. WebrtcOffer (sd p) p (groupId c)) ps
         else frames_out c)"
    using r by (simp add: list_rest fo)
qed

text \<open>
  In the running call: a list naming \<open>u2\<close>, the local user \<open>u1\<close> and \<open>u3\<close> arms timers
  at 500 and 900 milliseconds for \<open>u2\<close> and \<open>u3\<close>; a list naming \<open>u2\<close> and \<open>u3\<close> arms
  them at 500 and 700, and their firing writes one offer to each.
\<close>

theorem participants_list_offers_witness:
  "localStreamRef ready_call \<noteq> None \<and>
   callTimers (handleWebRTCMessage willing (ParticipantsList (Some [''u2'', ''u1'', ''u3''])) ready_call) =
     [(500, ''u2''), (900, ''u3'')] \<and>
   distinct [''u2'', ''u3''] \<and> callTimers ready_call = [] \<and>
   callTimers (handleWebRTCMessage willing (ParticipantsList (Some [''u2'', ''u3''])) ready_call) =
     [(500, ''u2''), (700, ''u3'')] \<and>
   map fst (peersRef (fire_timers 2 (\<lambda>_. willing)
     (handleWebRTCMessage willing (ParticipantsList (Some [''u2'', ''u3''])) ready_call))) =
     [''u2'', ''u3''] \<and>
   frames_out (fire_timers 2 (\<lambda>_. willing)
     (handleWebRTCMessage willing (ParticipantsList (Some [''u2'', ''u3''])) ready_call)) =
     [ParticipantReady (Some ''u1'') (Some ''g1''),
      WebrtcOffer ''v=0'' ''u2'' (Some ''g1''), WebrtcOffer ''v=0'' ''u3'' (Some ''g1'')]"
proof -
  have l: "localStreamRef ready_call \<noteq> None"
    by (simp add: ready_call_fields)
  note t = participants_list_offers [where c = ready_call and b = willing and bs = "\<lambda>_. willing"
      and sd = "\<lambda>_. ''v=0''"]
  from t [where ps = "[''u2'', ''u1'', ''u3'']"] l
  have 1: "callTimers (handleWebRTCMessage willing (ParticipantsList (Some [''u2'', ''u1'', ''u3''])) ready_call) =
     [(500, ''u2''), (900, ''u3'')]"
    by (simp add: ready_call_fields)
  have h: "localStreamRef ready_call \<noteq> None \<and> distinct [''u2'', ''u3''] \<and> callTimers ready_call = [] \<and>
    (\<forall>p \<in> set [''u2'', ''u3'']. Some p \<noteq> user_id ready_call \<and> map_of (peersRef ready_call) p = None) \<and>
    (\<forall>p \<in> set [''u2'', ''u3'']. created willing = Some ''v=0'' \<and> sld_ok willing)"
    by (simp add: ready_call_fields willing_def)
  from t [where ps = "[''u2'', ''u3'']"] h
  have 2: "callTimers (handleWebRTCMessage willing (ParticipantsList (Some [''u2'', ''u3''])) ready_call) =
      staggered [''u2'', ''u3'']"
    and 3: "peersRef (fire_timers (length [''u2'', ''u3'']) (\<lambda>_. willing)
        (handleWebRTCMessage willing (ParticipantsList (Some [''u2'', ''u3''])) ready_call)) =
        peersRef ready_call @ map (\<lambda>p. (p, offering ''v=0'' (new_peer ready_call))) [''u2'', ''u3'']"
    and 4: "frames_out (fire_timers (length [''u2'', ''u3'']) (\<lambda>_. willing)
        (handleWebRTCMessage willing (ParticipantsList (Some [''u2'', ''u3''])) ready_call)) =
        (if isConnected (wsService ready_call)
         then frames_out ready_call @ map (\<lambda>p. WebrtcOffer ''v=0'' p (groupId ready_call)) [''u2'', ''u3'']
         else frames_out ready_call)"
    by blast+
  have 5: "staggered [''u2'', ''u3''] = [(500, ''u2''), (700, ''u3'')]"
    by (simp add: staggered_def)
  show ?thesis
    using l 1 2 3 4 5
    by (simp add: ready_call_fields ready_call_connected ready_call_frames numeral_2_eq_2)
qed


section \<open>Reconnection\<close>

subsection \<open>What a dispatch leaves alone\<close>

lemma call_listener_frame:
  "ws (call_listener ev d cb s) = ws s"
  "reconnectAttempts (call_listener ev d cb s) = reconnectAttempts s"
  "maxReconnectAttempts (call_listener ev d cb s) = maxReconnectAttempts s"
  "reconnectDelay (call_listener ev d cb s) = reconnectDelay s"
  "listeners (call_listener ev d cb s) = listeners s"
  "isConnecting (call_listener ev d cb s) = isConnecting s"
  "getToken (call_listener ev d cb s) = getToken s"
  "sockets (call_listener ev d cb s) = sockets s"
  "timers (call_listener ev d cb s) = timers s"
  "awaiting (call_listener ev d cb s) = awaiting s"
  "location_protocol (call_listener ev d cb s) = location_protocol s"
  "location_hostname (call_listener ev d cb s) = location_hostname s"
  "rejects_url (call_listener ev d cb s) = rejects_url s"
  "emitted (call_listener ev d cb s) = emitted s"
  by (simp_all add: call_listener_def split: outcome.split)

lemma forEach_listener_frame:
  "ws (forEach_listener ev d cbs s) = ws s \<and>
   reconnectAttempts (forEach_listener ev d cbs s) = reconnectAttempts s \<and>
   maxReconnectAttempts (forEach_listener ev d cbs s) = maxReconnectAttempts s \<and>
   reconnectDelay (forEach_listener ev d cbs s) = reconnectDelay s \<and>
   listeners (forEach_listener ev d cbs s) = listeners s \<and>
   isConnecting (forEach_listener ev d cbs s) = isConnecting s \<and>
   getToken (forEach_listener ev d cbs s) = getToken s \<and>
   sockets (forEach_listener ev d cbs s) = sockets s \<and>
   timers (forEach_listener ev d cbs s) = timers s \<and>
   awaiting (forEach_listener ev d cbs s) = awaiting s \<and>
   location_protocol (forEach_listener ev d cbs s) = location_protocol s \<and>
   location_hostname (forEach_listener ev d cbs s) = location_hostname s \<and>
   rejects_url (forEach_listener ev d cbs s) = rejects_url s \<and>
   emitted (forEach_listener ev d cbs s) = emitted s"
  by (induction cbs arbitrary: s) (simp_all add: call_listener_frame)

lemma emit_frame:
  "ws (emit ev d s) = ws s"
  "reconnectAttempts (emit ev d s) = reconnectAttempts s"
  "maxReconnectAttempts (emit ev d s) = maxReconnectAttempts s"
  "reconnectDelay (emit ev d s) = reconnectDelay s"
  "listeners (emit ev d s) = listeners s"
  "isConnecting (emit ev d s) = isConnecting s"
  "getToken (emit ev d s) = getToken s"
  "sockets (emit ev d s) = sockets s"
  "timers (emit ev d s) = timers s"
  "awaiting (emit ev d s) = awaiting s"
  "location_protocol (emit ev d s) = location_protocol s"
  "location_hostname (emit ev d s) = location_hostname s"
  "rejects_url (emit ev d s) = rejects_url s"
  "emitted (emit ev d s) = emitted s @ [ev]"
  by (simp_all add: emit_def Let_def forEach_listener_frame split: option.split)

lemma live_zero: "live s = 0 \<longleftrightarrow> (\<forall>k \<in> set (sockets s). sock_state k = CLOSED)"
  by (auto simp: live_def filter_empty_conv)

lemma not_connected: "live s = 0 \<Longrightarrow> \<not> isConnected s"
  by (auto simp: live_zero isConnected_def split: option.splits)

lemma isConnected_cong: "ws s' = ws s \<Longrightarrow> sockets s' = sockets s \<Longrightarrow> isConnected s' = isConnected s"
  by (simp add: isConnected_def split: option.split)

lemma open_socket_ok:
  "\<not> rejects_url s (wsUrl s g t) \<Longrightarrow>
   open_socket g t s =
     s\<lparr>ws := Some (length (sockets s)),
       sockets := sockets s @
         [\<lparr>sock_url = wsUrl s g t, sock_state = CONNECTING, sock_sent = [], sock_group = g\<rparr>]\<rparr>"
  by (simp add: open_socket_def Let_def)

lemma attempt_opens:
  assumes "timers s = [(d, g)]" "awaiting s = []" "\<not> isConnecting s" "\<not> isConnected s"
    "\<And>u. \<not> rejects_url s u"
  shows "\<exists>u. ws (token_resolved 0 tok (timer_fired 0 s)) = Some (length (sockets s)) \<and>
     sockets (token_resolved 0 tok (timer_fired 0 s)) =
       sockets s @ [\<lparr>sock_url = u, sock_state = CONNECTING, sock_sent = [], sock_group = g\<rparr>] \<and>
     timers (token_resolved 0 tok (timer_fired 0 s)) = [] \<and>
     awaiting (token_resolved 0 tok (timer_fired 0 s)) = [] \<and>
     reconnectAttempts (token_resolved 0 tok (timer_fired 0 s)) = reconnectAttempts s \<and>
     maxReconnectAttempts (token_resolved 0 tok (timer_fired 0 s)) = maxReconnectAttempts s \<and>
     reconnectDelay (token_resolved 0 tok (timer_fired 0 s)) = reconnectDelay s \<and>
     rejects_url (token_resolved 0 tok (timer_fired 0 s)) = rejects_url s \<and>
     emitted (token_resolved 0 tok (timer_fired 0 s)) = emitted s"
proof -
  define s0 where "s0 = s\<lparr>timers := []\<rparr>"
  have "isConnected s0 = isConnected s"
    by (rule isConnected_cong) (simp_all add: s0_def)
  with assms have c0: "\<not> isConnecting s0" "\<not> isConnected s0" "awaiting s0 = []"
    by (simp_all add: s0_def)
  have tf: "timer_fired 0 s = connect g s0"
    using assms(1) by (simp add: timer_fired_def s0_def)
  show ?thesis
  proof (cases "getToken s")
    case None
    then have "connect g s0 = open_socket g [] (s0\<lparr>isConnecting := True\<rparr>)"
      using c0 by (simp add: connect_def Let_def s0_def)
    also have "\<dots> = (s0\<lparr>isConnecting := True\<rparr>)\<lparr>ws := Some (length (sockets s)),
       sockets := sockets s @ [\<lparr>sock_url = wsUrl (s0\<lparr>isConnecting := True\<rparr>) g [],
          sock_state = CONNECTING, sock_sent = [], sock_group = g\<rparr>]\<rparr>"
      using assms(5) by (subst open_socket_ok) (simp_all add: s0_def)
    finally show ?thesis
      using assms(2) by (simp add: tf token_resolved_def s0_def)
  next
    case (Some a)
    then have "connect g s0 = s0\<lparr>isConnecting := True, awaiting := [g]\<rparr>"
      using c0 by (simp add: connect_def Let_def s0_def)
    then have "token_resolved 0 tok (timer_fired 0 s) =
        open_socket g tok (s0\<lparr>isConnecting := True, awaiting := []\<rparr>)"
      by (simp add: tf token_resolved_def)
    also have "\<dots> = (s0\<lparr>isConnecting := True, awaiting := []\<rparr>)\<lparr>ws := Some (length (sockets s)),
       sockets := sockets s @ [\<lparr>sock_url = wsUrl (s0\<lparr>isConnecting := True, awaiting := []\<rparr>) g tok,
          sock_state = CONNECTING, sock_sent = [], sock_group = g\<rparr>]\<rparr>"
      using assms(5) by (subst open_socket_ok) (simp_all add: s0_def)
    finally show ?thesis
      by (simp add: s0_def)
  qed
qed

lemma failing_attempt_step:
  assumes "between k g s"
  shows "(k < 5 \<longrightarrow> between (Suc k) g (failing_attempt tok s) \<and>
            emitted (failing_attempt tok s) = emitted s @ [''error'', ''disconnected'']) \<and>
         (\<not> k < 5 \<longrightarrow> timers (failing_attempt tok s) = [] \<and> awaiting (failing_attempt tok s) = [] \<and>
            live (failing_attempt tok s) = 0 \<and> \<not> isConnecting (failing_attempt tok s) \<and>
            reconnectAttempts (failing_attempt tok s) = k \<and>
            emitted (failing_attempt tok s) = emitted s @ [''error'', ''disconnected'', ''reconnect_failed'']) \<and>
         length (sockets (failing_attempt tok s)) = Suc (length (sockets s))"
proof -
  let ?n = "length (sockets s)"
  from assms have a: "reconnectAttempts s = k" "maxReconnectAttempts s = 5" "reconnectDelay s = 1000"
     "timers s = [(1000 * k, g)]" "awaiting s = []" "\<not> isConnecting s" "live s = 0" "\<And>u. \<not> rejects_url s u"
    by (simp_all add: between_def)
  have nc: "\<not> isConnected s" using a(7) by (rule not_connected)
  define s2 where "s2 = token_resolved 0 tok (timer_fired 0 s)"
  from attempt_opens [OF a(4,5,6) nc a(8), of tok]
  obtain u where f2: "ws s2 = Some ?n"
     "sockets s2 = sockets s @ [\<lparr>sock_url = u, sock_state = CONNECTING, sock_sent = [], sock_group = g\<rparr>]"
     "timers s2 = []" "awaiting s2 = []" "reconnectAttempts s2 = k" "maxReconnectAttempts s2 = 5"
     "reconnectDelay s2 = 1000" "rejects_url s2 = rejects_url s" "emitted s2 = emitted s"
    unfolding s2_def a by blast
  have fa: "failing_attempt tok s = sock_failed ?n s2"
    by (simp add: failing_attempt_def Let_def s2_def[symmetric] f2)
  define s3 where "s3 = emit ''disconnected'' NoPayload
      ((emit ''error'' ErrorEvent ((set_state ?n CLOSED s2)\<lparr>isConnecting := False\<rparr>))\<lparr>isConnecting := False\<rparr>)"
  have sf: "sock_failed ?n s2 = attemptReconnect g s3"
    by (simp add: sock_failed_def f2 onclose_def onerror_def s3_def)
  have f3: "reconnectAttempts s3 = k" "maxReconnectAttempts s3 = 5" "reconnectDelay s3 = 1000" "timers s3 = []"
    "awaiting s3 = []" "\<not> isConnecting s3"
    "sockets s3 = sockets s @ [\<lparr>sock_url = u, sock_state = CLOSED, sock_sent = [], sock_group = g\<rparr>]"
    "ws s3 = Some ?n" "rejects_url s3 = rejects_url s" "emitted s3 = emitted s @ [''error'', ''disconnected'']"
    by (simp_all add: s3_def emit_frame set_state_def f2)
  have l3: "live s3 = 0" using a(7) by (simp add: live_def f3)
  show ?thesis
  proof (cases "k < 5")
    case True
    then have "attemptReconnect g s3 = s3\<lparr>reconnectAttempts := Suc k, timers := [(1000 * Suc k, g)]\<rparr>"
      by (simp add: attemptReconnect_def f3 Let_def)
    then show ?thesis using True l3 a(8)
      by (simp add: fa sf between_def f3 live_def)
  next
    case False
    then have "attemptReconnect g s3 = emit ''reconnect_failed'' NoPayload s3"
      by (simp add: attemptReconnect_def f3)
    then show ?thesis using False l3
      by (simp add: fa sf emit_frame f3 live_def)
  qed
qed

lemma failing_run_from:
  assumes "between k g s" "1 \<le> k" "k \<le> 5" "6 - k \<le> n"
  shows "timers (failing_run n tok s) = [] \<and> awaiting (failing_run n tok s) = [] \<and>
         live (failing_run n tok s) = 0 \<and> \<not> isConnecting (failing_run n tok s) \<and>
         reconnectAttempts (failing_run n tok s) = 5 \<and>
         emitted (failing_run n tok s) =
           emitted s @ concat (replicate (5 - k) [''error'', ''disconnected'']) @
             [''error'', ''disconnected'', ''reconnect_failed''] \<and>
         length (sockets (failing_run n tok s)) = length (sockets s) + (6 - k)"
  using assms
proof (induction n arbitrary: k s)
  case 0
  then show ?case by simp
next
  case (Suc n)
  have t: "timers s \<noteq> []" using Suc.prems(1) by (simp add: between_def)
  note st = failing_attempt_step [OF Suc.prems(1), of tok]
  have q: "failing_run n tok s' = s'" if "timers s' = []" for s' :: "'a WebSocketService"
    using that by (cases n) simp_all
  show ?case
  proof (cases "k < 5")
    case True
    with st have b: "between (Suc k) g (failing_attempt tok s)"
      and e: "emitted (failing_attempt tok s) = emitted s @ [''error'', ''disconnected'']"
      and l: "length (sockets (failing_attempt tok s)) = Suc (length (sockets s))"
      by simp_all
    from True Suc.prems have "6 - Suc k \<le> n" by simp
    from Suc.IH [OF b _ _ this] True
    have IH: "timers (failing_run n tok (failing_attempt tok s)) = [] \<and>
      awaiting (failing_run n tok (failing_attempt tok s)) = [] \<and>
      live (failing_run n tok (failing_attempt tok s)) = 0 \<and>
      \<not> isConnecting (failing_run n tok (failing_attempt tok s)) \<and>
      reconnectAttempts (failing_run n tok (failing_attempt tok s)) = 5 \<and>
      emitted (failing_run n tok (failing_attempt tok s)) =
        emitted (failing_attempt tok s) @ concat (replicate (5 - Suc k) [''error'', ''disconnected'']) @
          [''error'', ''disconnected'', ''reconnect_failed''] \<and>
      length (sockets (failing_run n tok (failing_attempt tok s))) =
        length (sockets (failing_attempt tok s)) + (6 - Suc k)"
      by simp
    have r: "replicate (5 - k) [''error'', ''disconnected''] =
             [''error'', ''disconnected''] # replicate (5 - Suc k) [''error'', ''disconnected'']"
      using True by (cases "5 - k") simp_all
    show ?thesis
      using IH True t unfolding e l r by simp
  next
    case False
    with Suc.prems have k: "k = 5" by simp
    from st False have f: "timers (failing_attempt tok s) = []" "awaiting (failing_attempt tok s) = []"
      "live (failing_attempt tok s) = 0" "\<not> isConnecting (failing_attempt tok s)"
      "reconnectAttempts (failing_attempt tok s) = k"
      "emitted (failing_attempt tok s) = emitted s @ [''error'', ''disconnected'', ''reconnect_failed'']"
      "length (sockets (failing_attempt tok s)) = Suc (length (sockets s))"
      by simp_all
    show ?thesis
      using t f k by (simp add: q [OF f(1)])
  qed
qed


lemma step_config:
  "maxReconnectAttempts (step a s) = maxReconnectAttempts s \<and>
   reconnectDelay (step a s) = reconnectDelay s"
  by (cases a)
     (auto simp: connect_def open_socket_def setGetToken_def send_def write_frame_def on_def off_def
        disconnect_def sock_close_call_def token_resolved_def token_rejected_def sock_opened_def
        onopen_def sock_message_def onmessage_def sock_closing_def set_state_def sock_closed_def
        sock_failed_def onclose_def onerror_def attemptReconnect_def timer_fired_def emit_frame Let_def
        split: option.splits frame.splits)

lemma run_config:
  "maxReconnectAttempts (run acts s) = maxReconnectAttempts s \<and>
   reconnectDelay (run acts s) = reconnectDelay s"
  by (induction acts arbitrary: s) (simp_all add: step_config)

lemma sock_closed_effect:
  assumes "i < length (sockets s)" "sock_state (sockets s ! i) \<noteq> CLOSED"
  shows "(reconnectAttempts s < maxReconnectAttempts s \<longrightarrow>
           reconnectAttempts (sock_closed i s) = reconnectAttempts s + 1 \<and>
           timers (sock_closed i s) =
             timers s @ [(reconnectDelay s * (reconnectAttempts s + 1), sock_group (sockets s ! i))] \<and>
           emitted (sock_closed i s) = emitted s @ [''disconnected'']) \<and>
         (\<not> reconnectAttempts s < maxReconnectAttempts s \<longrightarrow>
           reconnectAttempts (sock_closed i s) = reconnectAttempts s \<and>
           timers (sock_closed i s) = timers s \<and>
           emitted (sock_closed i s) = emitted s @ [''disconnected'', ''reconnect_failed''])"
  using assms
  by (simp add: sock_closed_def onclose_def attemptReconnect_def set_state_def emit_frame Let_def)

lemma closure_starts_run:
  assumes "maxReconnectAttempts s = 5" "reconnectDelay s = 1000" "reconnectAttempts s = 0"
    "i < length (sockets s)" "sock_state (sockets s ! i) = OPEN"
    "\<forall>j < length (sockets s). j \<noteq> i \<longrightarrow> sock_state (sockets s ! j) = CLOSED"
    "timers s = []" "awaiting s = []" "\<forall>u. \<not> rejects_url s u"
  shows "between 1 (sock_group (sockets s ! i)) (sock_closed i s) \<and>
         emitted (sock_closed i s) = emitted s @ [''disconnected''] \<and>
         length (sockets (sock_closed i s)) = length (sockets s)"
proof -
  let ?t = "emit ''disconnected'' NoPayload ((set_state i CLOSED s)\<lparr>isConnecting := False\<rparr>)"
  have c: "sock_closed i s = attemptReconnect (sock_group (sockets s ! i)) ?t"
    using assms(4,5) by (simp add: sock_closed_def onclose_def)
  have st: "sockets ?t = (sockets s)[i := (sockets s ! i)\<lparr>sock_state := CLOSED\<rparr>]"
    by (simp add: emit_frame set_state_def)
  have "\<forall>k \<in> set (sockets ?t). sock_state k = CLOSED"
    unfolding st using assms(4,6)
    by (auto simp: in_set_conv_nth nth_list_update)
  then have l: "live ?t = 0"
    by (simp add: live_zero)
  have "attemptReconnect (sock_group (sockets s ! i)) ?t =
        ?t\<lparr>reconnectAttempts := 1, timers := [(1000, sock_group (sockets s ! i))]\<rparr>"
    using assms by (simp add: attemptReconnect_def emit_frame set_state_def Let_def)
  then show ?thesis
    using assms l unfolding c
    by (simp add: between_def emit_frame set_state_def live_def)
qed

text \<open>
  C1. (1) When a socket that is not yet closed closes: if the attempt counter is
  below the maximum, the counter is incremented and one timer is armed, with the delay
  \<open>reconnectDelay\<close> times the incremented counter, and only \<^verbatim>\<open>disconnected\<close> is
  emitted; otherwise no timer is armed and \<^verbatim>\<open>reconnect_failed\<close> is emitted after
  \<^verbatim>\<open>disconnected\<close>. (2) In every state the service reaches from its constructor the
  maximum is 5 and the base delay 1000. (3) Let an established connection close, the
  counter being 0 and nothing else pending, and let every open that follows fail (each
  timer fires, the token provider delivers, the new socket fails). Then, whatever
  number \<open>n \<ge> 5\<close> of rounds is allowed, the run makes five attempts, emits
  \<^verbatim>\<open>reconnect_failed\<close> once, as its last event, and ends with no timer armed, no
  \<^verbatim>\<open>connect\<close> in flight and no socket left that is not closed.
\<close>

theorem reconnection_is_bounded:
  "(i < length (sockets s) \<and> sock_state (sockets s ! i) \<noteq> CLOSED \<longrightarrow>
      (reconnectAttempts s < maxReconnectAttempts s \<longrightarrow>
         reconnectAttempts (sock_closed i s) = reconnectAttempts s + 1 \<and>
         timers (sock_closed i s) =
           timers s @ [(reconnectDelay s * (reconnectAttempts s + 1), sock_group (sockets s ! i))] \<and>
         emitted (sock_closed i s) = emitted s @ [''disconnected'']) \<and>
      (\<not> reconnectAttempts s < maxReconnectAttempts s \<longrightarrow>
         reconnectAttempts (sock_closed i s) = reconnectAttempts s \<and>
         timers (sock_closed i s) = timers s \<and>
         emitted (sock_closed i s) = emitted s @ [''disconnected'', ''reconnect_failed''])) \<and>
   maxReconnectAttempts (run acts (constructor p h bad w)) = 5 \<and>
   reconnectDelay (run acts (constructor p h bad w)) = 1000 \<and>
   (maxReconnectAttempts s = 5 \<and> reconnectDelay s = 1000 \<and> reconnectAttempts s = 0 \<and>
    i < length (sockets s) \<and> sock_state (sockets s ! i) = OPEN \<and>
    (\<forall>j < length (sockets s). j \<noteq> i \<longrightarrow> sock_state (sockets s ! j) = CLOSED) \<and>
    timers s = [] \<and> awaiting s = [] \<and> (\<forall>u. \<not> rejects_url s u) \<and> 5 \<le> n \<longrightarrow>
      emitted (failing_run n tok (sock_closed i s)) =
        emitted s @ [''disconnected''] @ concat (replicate 5 [''error'', ''disconnected'']) @
          [''reconnect_failed''] \<and>
      length (filter (\<lambda>e. e = ''reconnect_failed'') (emitted (failing_run n tok (sock_closed i s)))) =
        length (filter (\<lambda>e. e = ''reconnect_failed'') (emitted s)) + 1 \<and>
      length (sockets (failing_run n tok (sock_closed i s))) = length (sockets s) + 5 \<and>
      reconnectAttempts (failing_run n tok (sock_closed i s)) = 5 \<and>
      timers (failing_run n tok (sock_closed i s)) = [] \<and>
      awaiting (failing_run n tok (sock_closed i s)) = [] \<and>
      \<not> isConnecting (failing_run n tok (sock_closed i s)) \<and>
      live (failing_run n tok (sock_closed i s)) = 0)"
proof (intro conjI)
  show "i < length (sockets s) \<and> sock_state (sockets s ! i) \<noteq> CLOSED \<longrightarrow>
      (reconnectAttempts s < maxReconnectAttempts s \<longrightarrow>
         reconnectAttempts (sock_closed i s) = reconnectAttempts s + 1 \<and>
         timers (sock_closed i s) =
           timers s @ [(reconnectDelay s * (reconnectAttempts s + 1), sock_group (sockets s ! i))] \<and>
         emitted (sock_closed i s) = emitted s @ [''disconnected'']) \<and>
      (\<not> reconnectAttempts s < maxReconnectAttempts s \<longrightarrow>
         reconnectAttempts (sock_closed i s) = reconnectAttempts s \<and>
         timers (sock_closed i s) = timers s \<and>
         emitted (sock_closed i s) = emitted s @ [''disconnected'', ''reconnect_failed''])"
    using sock_closed_effect [of i s] by blast
  show "maxReconnectAttempts (run acts (constructor p h bad w)) = 5"
    "reconnectDelay (run acts (constructor p h bad w)) = 1000"
    by (simp_all add: run_config constructor_def)
  show "maxReconnectAttempts s = 5 \<and> reconnectDelay s = 1000 \<and> reconnectAttempts s = 0 \<and>
    i < length (sockets s) \<and> sock_state (sockets s ! i) = OPEN \<and>
    (\<forall>j < length (sockets s). j \<noteq> i \<longrightarrow> sock_state (sockets s ! j) = CLOSED) \<and>
    timers s = [] \<and> awaiting s = [] \<and> (\<forall>u. \<not> rejects_url s u) \<and> 5 \<le> n \<longrightarrow>
      emitted (failing_run n tok (sock_closed i s)) =
        emitted s @ [''disconnected''] @ concat (replicate 5 [''error'', ''disconnected'']) @
          [''reconnect_failed''] \<and>
      length (filter (\<lambda>e. e = ''reconnect_failed'') (emitted (failing_run n tok (sock_closed i s)))) =
        length (filter (\<lambda>e. e = ''reconnect_failed'') (emitted s)) + 1 \<and>
      length (sockets (failing_run n tok (sock_closed i s))) = length (sockets s) + 5 \<and>
      reconnectAttempts (failing_run n tok (sock_closed i s)) = 5 \<and>
      timers (failing_run n tok (sock_closed i s)) = [] \<and>
      awaiting (failing_run n tok (sock_closed i s)) = [] \<and>
      \<not> isConnecting (failing_run n tok (sock_closed i s)) \<and>
      live (failing_run n tok (sock_closed i s)) = 0"
  proof
    assume h: "maxReconnectAttempts s = 5 \<and> reconnectDelay s = 1000 \<and> reconnectAttempts s = 0 \<and>
      i < length (sockets s) \<and> sock_state (sockets s ! i) = OPEN \<and>
      (\<forall>j < length (sockets s). j \<noteq> i \<longrightarrow> sock_state (sockets s ! j) = CLOSED) \<and>
      timers s = [] \<and> awaiting s = [] \<and> (\<forall>u. \<not> rejects_url s u) \<and> 5 \<le> n"
    let ?s1 = "sock_closed i s"
    from h closure_starts_run [of s i]
    have b: "between 1 (sock_group (sockets s ! i)) ?s1"
      and e: "emitted ?s1 = emitted s @ [''disconnected'']"
      and l: "length (sockets ?s1) = length (sockets s)"
      by blast+
    from h have n: "6 - 1 \<le> n"
      by simp
    from failing_run_from [OF b _ _ n, of tok]
    have r: "timers (failing_run n tok ?s1) = [] \<and> awaiting (failing_run n tok ?s1) = [] \<and>
         live (failing_run n tok ?s1) = 0 \<and> \<not> isConnecting (failing_run n tok ?s1) \<and>
         reconnectAttempts (failing_run n tok ?s1) = 5 \<and>
         emitted (failing_run n tok ?s1) =
           emitted ?s1 @ concat (replicate (5 - 1) [''error'', ''disconnected'']) @
             [''error'', ''disconnected'', ''reconnect_failed''] \<and>
         length (sockets (failing_run n tok ?s1)) = length (sockets ?s1) + (6 - 1)"
      by simp
    have c: "concat (replicate (5 - 1) [''error'', ''disconnected'']) @
               [''error'', ''disconnected'', ''reconnect_failed''] =
             concat (replicate 5 [''error'', ''disconnected'']) @ [''reconnect_failed'']"
      by (simp add: numeral_eq_Suc)
    show "emitted (failing_run n tok ?s1) =
        emitted s @ [''disconnected''] @ concat (replicate 5 [''error'', ''disconnected'']) @
          [''reconnect_failed''] \<and>
      length (filter (\<lambda>e. e = ''reconnect_failed'') (emitted (failing_run n tok ?s1))) =
        length (filter (\<lambda>e. e = ''reconnect_failed'') (emitted s)) + 1 \<and>
      length (sockets (failing_run n tok ?s1)) = length (sockets s) + 5 \<and>
      reconnectAttempts (failing_run n tok ?s1) = 5 \<and>
      timers (failing_run n tok ?s1) = [] \<and>
      awaiting (failing_run n tok ?s1) = [] \<and>
      \<not> isConnecting (failing_run n tok ?s1) \<and>
      live (failing_run n tok ?s1) = 0"
      using r unfolding e l c by (simp add: numeral_eq_Suc)
  qed
qed

text \<open>
  The connection of the running example closes and every open that follows fails:
  the first timer is armed at 1000 milliseconds; after five failed attempts
  \<^verbatim>\<open>reconnect_failed\<close> is emitted, once, and nothing is left pending.
\<close>

theorem reconnection_is_bounded_witness:
  "sock_state (sockets (run [Connect ''g1'', SockOpened 0]
      (constructor ''http:'' ''localhost'' (\<lambda>_. False) ())) ! 0) = OPEN \<and>
   reconnectAttempts (run [Connect ''g1'', SockOpened 0]
      (constructor ''http:'' ''localhost'' (\<lambda>_. False) ())) = 0 \<and>
   timers (sock_closed 0 (run [Connect ''g1'', SockOpened 0]
      (constructor ''http:'' ''localhost'' (\<lambda>_. False) ()))) = [(1000, ''g1'')] \<and>
   emitted (failing_run 5 [] (sock_closed 0 (run [Connect ''g1'', SockOpened 0]
      (constructor ''http:'' ''localhost'' (\<lambda>_. False) ())))) =
     [''connected'', ''disconnected'',
      ''error'', ''disconnected'', ''error'', ''disconnected'', ''error'', ''disconnected'',
      ''error'', ''disconnected'', ''error'', ''disconnected'', ''reconnect_failed''] \<and>
   length (sockets (failing_run 5 [] (sock_closed 0 (run [Connect ''g1'', SockOpened 0]
      (constructor ''http:'' ''localhost'' (\<lambda>_. False) ()))))) = 6 \<and>
   timers (failing_run 5 [] (sock_closed 0 (run [Connect ''g1'', SockOpened 0]
      (constructor ''http:'' ''localhost'' (\<lambda>_. False) ())))) = [] \<and>
   live (failing_run 5 [] (sock_closed 0 (run [Connect ''g1'', SockOpened 0]
      (constructor ''http:'' ''localhost'' (\<lambda>_. False) ())))) = 0"
proof -
  define S where "S = run [Connect ''g1'', SockOpened 0] (constructor ''http:'' ''localhost'' (\<lambda>_. False) ())"
  have f: "maxReconnectAttempts S = 5" "reconnectDelay S = 1000" "reconnectAttempts S = 0"
    "length (sockets S) = 1" "sock_state (sockets S ! 0) = OPEN" "sock_group (sockets S ! 0) = ''g1''"
    "timers S = []" "awaiting S = []" "rejects_url S = (\<lambda>_. False)" "emitted S = [''connected'']"
    unfolding S_def opened_example by simp_all
  have h: "maxReconnectAttempts S = 5 \<and> reconnectDelay S = 1000 \<and> reconnectAttempts S = 0 \<and>
    0 < length (sockets S) \<and> sock_state (sockets S ! 0) = OPEN \<and>
    (\<forall>j < length (sockets S). j \<noteq> 0 \<longrightarrow> sock_state (sockets S ! j) = CLOSED) \<and>
    timers S = [] \<and> awaiting S = [] \<and> (\<forall>u. \<not> rejects_url S u) \<and> (5::nat) \<le> 5"
    by (simp add: f)
  have g: "0 < length (sockets S) \<and> sock_state (sockets S ! 0) \<noteq> CLOSED"
    "reconnectAttempts S < maxReconnectAttempts S"
    by (simp_all add: f)
  note t = reconnection_is_bounded [where s = S and i = 0 and n = 5 and tok = "[]"
      and acts = "[]" and p = "[]" and h = "[]" and bad = "\<lambda>_. False" and w = "()"]
  from t g have 1: "timers (sock_closed 0 S) =
      timers S @ [(reconnectDelay S * (reconnectAttempts S + 1), sock_group (sockets S ! 0))]"
    by blast
  from t h have 2: "emitted (failing_run 5 [] (sock_closed 0 S)) =
        emitted S @ [''disconnected''] @ concat (replicate 5 [''error'', ''disconnected'']) @
          [''reconnect_failed'']"
    and 3: "length (sockets (failing_run 5 [] (sock_closed 0 S))) = length (sockets S) + 5"
    and 4: "timers (failing_run 5 [] (sock_closed 0 S)) = []"
    and 5: "live (failing_run 5 [] (sock_closed 0 S)) = 0"
    by blast+
  show ?thesis
    unfolding S_def [symmetric] 1 2 3 4 5 f by (simp add: numeral_eq_Suc)
qed


section \<open>Connection handles\<close>

lemma live_cong: "sockets s' = sockets s \<Longrightarrow> live s' = live s"
  by (simp add: live_def)

lemma live_states: "live s = length (filter (\<lambda>x. x \<noteq> CLOSED) (map sock_state (sockets s)))"
  by (simp add: live_def filter_map comp_def)

lemma settled_states_cong:
  assumes "ws s' = ws s" "map sock_state (sockets s') = map sock_state (sockets s)"
    "isConnecting s' = isConnecting s" "awaiting s' = awaiting s"
  shows "settled s' = settled s"
proof -
  have len: "length (sockets s') = length (sockets s)"
    using assms(2) by (metis length_map)
  have nth: "sock_state (sockets s' ! j) = sock_state (sockets s ! j)" if "j < length (sockets s)" for j
    using assms(2) that len by (metis nth_map)
  have lv: "live s' = live s"
    by (simp add: live_states assms(2))
  show ?thesis
    unfolding settled_def assms(1,3,4) len lv
    using nth by (auto split: option.splits)
qed

lemma settled_cong:
  "ws s' = ws s \<Longrightarrow> sockets s' = sockets s \<Longrightarrow> isConnecting s' = isConnecting s \<Longrightarrow>
   awaiting s' = awaiting s \<Longrightarrow> settled s' = settled s"
  by (rule settled_states_cong) simp_all

lemma settled_emit: "settled (emit ev d s) = settled s"
  by (rule settled_cong) (simp_all add: emit_frame)

lemma settled_idle:
  assumes "settled s" "\<not> isConnecting s" "\<not> isConnected s"
  shows "live s = 0 \<and> awaiting s = []"
proof -
  have aw: "awaiting s = []"
    using assms(1,2) by (auto simp: settled_def)
  have "sock_state k = CLOSED" if "k \<in> set (sockets s)" for k
  proof -
    from that obtain j where j: "j < length (sockets s)" "k = sockets s ! j"
      by (auto simp: in_set_conv_nth)
    show ?thesis
    proof (cases "Some j = ws s")
      case False
      with assms(1) j show ?thesis by (simp add: settled_def)
    next
      case True
      then have w: "ws s = Some j" by simp
      from assms(1) j have 1: "sock_state k \<noteq> CLOSING"
        by (simp add: settled_def)
      from assms(1,2) w j have 2: "sock_state k \<noteq> CONNECTING"
        by (auto simp: settled_def)
      from assms(3) w j have 3: "sock_state k \<noteq> OPEN"
        by (simp add: isConnected_def)
      from 1 2 3 show ?thesis by (cases "sock_state k") simp_all
    qed
  qed
  then show ?thesis
    using aw by (simp add: live_zero)
qed

lemma settled_open_socket:
  assumes "live s = 0" "awaiting s = []" "isConnecting s"
    "case ws s of None \<Rightarrow> True | Some i \<Rightarrow> i < length (sockets s)"
  shows "settled (open_socket g t s)"
proof -
  have c: "\<And>j. j < length (sockets s) \<Longrightarrow> sock_state (sockets s ! j) = CLOSED"
    using assms(1) by (simp add: live_zero)
  show ?thesis
    using assms c
    by (auto simp: open_socket_def Let_def settled_def nth_append live_def split: option.splits)
qed

lemma settled_valid: "settled s \<Longrightarrow> case ws s of None \<Rightarrow> True | Some i \<Rightarrow> i < length (sockets s)"
  by (auto simp: settled_def split: option.splits)

lemma settled_connect:
  assumes "settled s"
  shows "settled (connect g s)"
proof (cases "isConnecting s \<or> isConnected s")
  case True
  with assms show ?thesis by (simp add: connect_def)
next
  case False
  with settled_idle [OF assms] have i: "live s = 0" "awaiting s = []"
    by simp_all
  note v = settled_valid [OF assms]
  show ?thesis
  proof (cases "getToken s")
    case None
    have "settled (open_socket g [] (s\<lparr>isConnecting := True\<rparr>))"
      using i v by (intro settled_open_socket) (simp_all add: live_def split: option.splits)
    with None False show ?thesis
      by (simp add: connect_def Let_def)
  next
    case (Some a)
    have "settled (s\<lparr>isConnecting := True, awaiting := [g]\<rparr>)"
      using assms i by (auto simp: settled_def live_def split: option.splits)
    with Some False i show ?thesis
      by (simp add: connect_def Let_def)
  qed
qed

lemma settled_token_resolved:
  assumes "settled s"
  shows "settled (token_resolved k t s)"
proof (cases "k < length (awaiting s)")
  case False
  with assms show ?thesis by (simp add: token_resolved_def)
next
  case True
  with assms have a: "isConnecting s" "length (awaiting s) = 1" "live s = 0" "k = 0"
    by (auto simp: settled_def)
  note v = settled_valid [OF assms]
  have "settled (open_socket (awaiting s ! k) t (s\<lparr>awaiting := []\<rparr>))"
    using a v by (intro settled_open_socket) (simp_all add: live_def split: option.splits)
  with True a show ?thesis
    by (simp add: token_resolved_def)
qed

lemma settled_token_rejected:
  assumes "settled s"
  shows "settled (token_rejected k s)"
proof (cases "k < length (awaiting s)")
  case False
  with assms show ?thesis by (simp add: token_rejected_def)
next
  case True
  with assms have a: "length (awaiting s) = 1" "live s = 0" "k = 0"
    by (auto simp: settled_def)
  then have c: "\<And>j. j < length (sockets s) \<Longrightarrow> sock_state (sockets s ! j) = CLOSED"
    by (simp add: live_zero)
  show ?thesis
    using True a c settled_valid [OF assms]
    by (auto simp: token_rejected_def settled_def live_def split: option.splits)
qed

lemma settled_held:
  assumes "settled s" "i < length (sockets s)" "sock_state (sockets s ! i) \<noteq> CLOSED"
  shows "ws s = Some i \<and> awaiting s = []"
proof -
  from assms have w: "ws s = Some i"
    by (auto simp: settled_def)
  have "live s \<noteq> 0"
    using assms(2,3) by (auto simp: live_zero)
  with assms(1) have "awaiting s = []"
    by (auto simp: settled_def)
  with w show ?thesis by simp
qed

lemma settled_set_state:
  assumes "settled s" "ws s = Some i" "awaiting s = []" "st = OPEN \<or> st = CLOSED"
  shows "settled ((set_state i st s)\<lparr>isConnecting := False\<rparr>)"
  using assms
  by (auto simp: settled_def set_state_def nth_list_update live_def split: option.splits)

lemma settled_sock_opened:
  assumes "settled s"
  shows "settled (sock_opened i s)"
proof (cases "i < length (sockets s) \<and> sock_state (sockets s ! i) = CONNECTING")
  case False
  with assms show ?thesis by (auto simp: sock_opened_def)
next
  case True
  with settled_held [OF assms, of i] have h: "ws s = Some i" "awaiting s = []"
    by simp_all
  have "settled ((set_state i OPEN s)\<lparr>isConnecting := False\<rparr>)"
    using assms h by (intro settled_set_state) simp_all
  then have "settled ((set_state i OPEN s)\<lparr>isConnecting := False, reconnectAttempts := 0\<rparr>)"
    by (subst settled_cong [of _ "(set_state i OPEN s)\<lparr>isConnecting := False\<rparr>"]) simp_all
  with True show ?thesis
    by (simp add: sock_opened_def onopen_def settled_emit)
qed

lemma settled_attemptReconnect: "settled (attemptReconnect g s) = settled s"
proof (cases "reconnectAttempts s < maxReconnectAttempts s")
  case True
  have "settled (s\<lparr>reconnectAttempts := reconnectAttempts s + 1,
                  timers := timers s @ [(reconnectDelay s * (reconnectAttempts s + 1), g)]\<rparr>) = settled s"
    by (rule settled_cong) simp_all
  with True show ?thesis
    by (simp add: attemptReconnect_def Let_def)
next
  case False
  then show ?thesis
    by (simp add: attemptReconnect_def settled_emit)
qed

lemma settled_sock_closed:
  assumes "settled s"
  shows "settled (sock_closed i s) \<and> settled (sock_failed i s)"
proof (cases "i < length (sockets s) \<and> sock_state (sockets s ! i) \<noteq> CLOSED")
  case False
  with assms show ?thesis by (auto simp: sock_closed_def sock_failed_def)
next
  case True
  with settled_held [OF assms, of i] have h: "ws s = Some i" "awaiting s = []"
    by simp_all
  let ?c = "(set_state i CLOSED s)\<lparr>isConnecting := False\<rparr>"
  have c: "settled ?c"
    using assms h by (intro settled_set_state) simp_all
  have "settled ((emit ''error'' ErrorEvent ?c)\<lparr>isConnecting := False\<rparr>) = settled ?c"
    by (rule settled_cong) (simp_all add: emit_frame)
  with c have e: "settled ((emit ''error'' ErrorEvent ?c)\<lparr>isConnecting := False\<rparr>)"
    by simp
  have sc: "sock_closed i s = attemptReconnect (sock_group (sockets s ! i)) (emit ''disconnected'' NoPayload ?c)"
    using True by (simp add: sock_closed_def onclose_def)
  have sf: "sock_failed i s = attemptReconnect (sock_group (sockets s ! i))
      (emit ''disconnected'' NoPayload ((emit ''error'' ErrorEvent ?c)\<lparr>isConnecting := False\<rparr>))"
    using True by (simp add: sock_failed_def onclose_def onerror_def)
  show ?thesis
    unfolding sc sf using c e by (simp add: settled_attemptReconnect settled_emit)
qed

lemma settled_send: "settled (snd (send d s)) = settled s"
proof (rule settled_states_cong)
  show "ws (snd (send d s)) = ws s"
    "map sock_state (sockets (snd (send d s))) = map sock_state (sockets s)"
    by (rule send_frame)+
  show "isConnecting (snd (send d s)) = isConnecting s" "awaiting (snd (send d s)) = awaiting s"
    by (auto simp: send_def write_frame_def split: option.splits)
qed

lemma settled_step:
  assumes "settled s" "\<not> lingering a"
  shows "settled (step a s)"
proof (cases a)
  case (Connect g)
  with assms show ?thesis by (simp add: settled_connect)
next
  case (SetGetToken fn)
  have "settled (setGetToken fn s) = settled s"
    by (rule settled_cong) (simp_all add: setGetToken_def)
  with assms SetGetToken show ?thesis by simp
next
  case (Send d)
  with assms show ?thesis by (simp add: settled_send)
next
  case (On e cb)
  have "settled (on e cb s) = settled s"
    by (rule settled_cong) (simp_all add: on_def)
  with assms On show ?thesis by simp
next
  case (Off e cb)
  have "settled (off e cb s) = settled s"
    by (rule settled_cong) (simp_all add: off_def split: option.split)
  with assms Off show ?thesis by simp
next
  case Disconnect
  with assms show ?thesis by simp
next
  case (TokenResolved k t)
  with assms show ?thesis by (simp add: settled_token_resolved)
next
  case (TokenRejected k)
  with assms show ?thesis by (simp add: settled_token_rejected)
next
  case (SockOpened i)
  with assms show ?thesis by (simp add: settled_sock_opened)
next
  case (SockMessage i f)
  with assms show ?thesis
    by (cases f) (simp_all add: sock_message_def onmessage_def settled_emit Let_def)
next
  case (SockClosing i)
  with assms show ?thesis by simp
next
  case (SockClosed i)
  with assms show ?thesis by (simp add: settled_sock_closed)
next
  case (SockFailed i)
  with assms show ?thesis by (simp add: settled_sock_closed)
next
  case (TimerFired k)
  have "settled (s\<lparr>timers := take k (timers s) @ drop (Suc k) (timers s)\<rparr>) = settled s"
    by (rule settled_cong) simp_all
  with assms TimerFired show ?thesis
    by (simp add: timer_fired_def settled_connect)
qed

lemma settled_run:
  "settled s \<Longrightarrow> list_all (\<lambda>a. \<not> lingering a) acts \<Longrightarrow> settled (run acts s)"
  by (induction acts arbitrary: s) (simp_all add: settled_step)

lemma settled_constructor: "settled (constructor p h bad w)"
  by (simp add: settled_def constructor_def live_def)

lemma settled_live:
  assumes "settled s"
  shows "live s \<le> 1"
proof (cases "ws s")
  case None
  with assms have "\<forall>k \<in> set (sockets s). sock_state k = CLOSED"
    by (auto simp: settled_def in_set_conv_nth)
  then show ?thesis
    by (simp add: live_zero [symmetric])
next
  case (Some i)
  with assms have "{j. j < length (sockets s) \<and> sock_state (sockets s ! j) \<noteq> CLOSED} \<subseteq> {i}"
    by (auto simp: settled_def)
  then have "card {j. j < length (sockets s) \<and> sock_state (sockets s ! j) \<noteq> CLOSED} \<le> card {i}"
    by (intro card_mono) simp_all
  then show ?thesis
    by (simp add: live_def length_filter_conv_card)
qed

lemma settled_guard:
  assumes "settled s"
    "awaiting s \<noteq> [] \<or>
     (\<exists>i. ws s = Some i \<and> i < length (sockets s) \<and>
          (sock_state (sockets s ! i) = CONNECTING \<or> sock_state (sockets s ! i) = OPEN))"
  shows "connect g s = s"
proof -
  from assms have "isConnecting s \<or> isConnected s"
    by (auto simp: settled_def isConnected_def)
  then show ?thesis
    by (simp add: connect_def)
qed

lemma run_append: "run (xs @ ys) s = run ys (run xs s)"
  by (induction xs arbitrary: s) simp_all

lemma lingering_example:
  "sockets (run [SockClosing 0, Connect ''g1'']
      (run [Connect ''g1'', SockOpened 0] (constructor ''http:'' ''localhost'' (\<lambda>_. False) ()))) =
     [\<lparr>sock_url = ''ws://localhost:8000/ws/g1'', sock_state = CLOSING, sock_sent = [], sock_group = ''g1''\<rparr>,
      \<lparr>sock_url = ''ws://localhost:8000/ws/g1'', sock_state = CONNECTING, sock_sent = [], sock_group = ''g1''\<rparr>] \<and>
   sockets (run [SockClosing 0, Connect ''g1'', SockClosed 0]
      (run [Connect ''g1'', SockOpened 0] (constructor ''http:'' ''localhost'' (\<lambda>_. False) ()))) =
     [\<lparr>sock_url = ''ws://localhost:8000/ws/g1'', sock_state = CLOSED, sock_sent = [], sock_group = ''g1''\<rparr>,
      \<lparr>sock_url = ''ws://localhost:8000/ws/g1'', sock_state = CONNECTING, sock_sent = [], sock_group = ''g1''\<rparr>] \<and>
   ws (run [SockClosing 0, Connect ''g1'', SockClosed 0]
      (run [Connect ''g1'', SockOpened 0] (constructor ''http:'' ''localhost'' (\<lambda>_. False) ()))) = Some 1 \<and>
   \<not> isConnecting (run [SockClosing 0, Connect ''g1'', SockClosed 0]
      (run [Connect ''g1'', SockOpened 0] (constructor ''http:'' ''localhost'' (\<lambda>_. False) ()))) \<and>
   map sock_state (sockets (run [SockClosing 0, Connect ''g1'', SockClosed 0, Connect ''g1'']
      (run [Connect ''g1'', SockOpened 0] (constructor ''http:'' ''localhost'' (\<lambda>_. False) ())))) =
     [CLOSED, CONNECTING, CONNECTING]"
  unfolding opened_example
  by (simp add: sock_closing_def set_state_def connect_def isConnected_def open_socket_def wsUrl_def
      sock_closed_def onclose_def emit_def attemptReconnect_def Let_def)

text \<open>
  C3, as the code has it. (1) A \<^verbatim>\<open>connect\<close> call made while the \<open>isConnecting\<close> flag
  is set, or while the handle held is open, returns at once and changes nothing.
  (2) In every run of the service from its constructor in which no socket lingers in
  the \<open>CLOSING\<close> state (no closing handshake is observed half-way, \<^verbatim>\<open>disconnect\<close> is
  not called), at every moment at most one socket is not closed, and a \<^verbatim>\<open>connect\<close>
  call made while a \<^verbatim>\<open>connect\<close> awaits its token or while the handle held is
  connecting or open returns at once and changes nothing.
\<close>

theorem connect_guard_keeps_one_handle:
  "(isConnecting s \<or> isConnected s \<longrightarrow> connect g s = s) \<and>
   (list_all (\<lambda>a. \<not> lingering a) acts \<longrightarrow>
      live (run acts (constructor p h bad w)) \<le> 1 \<and>
      (awaiting (run acts (constructor p h bad w)) \<noteq> [] \<or>
       (\<exists>i. ws (run acts (constructor p h bad w)) = Some i \<and>
            i < length (sockets (run acts (constructor p h bad w))) \<and>
            (sock_state (sockets (run acts (constructor p h bad w)) ! i) = CONNECTING \<or>
             sock_state (sockets (run acts (constructor p h bad w)) ! i) = OPEN)) \<longrightarrow>
         connect g (run acts (constructor p h bad w)) = run acts (constructor p h bad w)))"
proof (intro conjI impI)
  assume "isConnecting s \<or> isConnected s"
  then show "connect g s = s"
    by (simp add: connect_def)
next
  assume "list_all (\<lambda>a. \<not> lingering a) acts"
  with settled_constructor have "settled (run acts (constructor p h bad w))"
    by (rule settled_run)
  then show "live (run acts (constructor p h bad w)) \<le> 1"
    by (rule settled_live)
next
  assume "list_all (\<lambda>a. \<not> lingering a) acts"
  with settled_constructor have "settled (run acts (constructor p h bad w))"
    by (rule settled_run)
  moreover assume "awaiting (run acts (constructor p h bad w)) \<noteq> [] \<or>
       (\<exists>i. ws (run acts (constructor p h bad w)) = Some i \<and>
            i < length (sockets (run acts (constructor p h bad w))) \<and>
            (sock_state (sockets (run acts (constructor p h bad w)) ! i) = CONNECTING \<or>
             sock_state (sockets (run acts (constructor p h bad w)) ! i) = OPEN))"
  ultimately show "connect g (run acts (constructor p h bad w)) = run acts (constructor p h bad w)"
    by (rule settled_guard)
qed

text \<open>
  A run with a token provider: \<^verbatim>\<open>connect\<close> is called twice while the token is
  awaited and once more while the socket connects; the socket opens, closes, and the
  reconnect timer fires. One socket was created for the three calls, and at the end
  one socket is live, the second.
\<close>

theorem connect_guard_keeps_one_handle_witness:
  "list_all (\<lambda>a. \<not> lingering a)
     [SetGetToken (Some 1), Connect ''g1'', Connect ''g1'', TokenResolved 0 ''t'', Connect ''g1'',
      SockOpened 0, SockClosed 0, TimerFired 0, TokenResolved 0 ''t''] \<and>
   awaiting (run [SetGetToken (Some 1), Connect ''g1'']
      (constructor ''http:'' ''localhost'' (\<lambda>_. False) ())) = [''g1''] \<and>
   connect ''g1'' (run [SetGetToken (Some 1), Connect ''g1'']
      (constructor ''http:'' ''localhost'' (\<lambda>_. False) ())) =
     run [SetGetToken (Some 1), Connect ''g1''] (constructor ''http:'' ''localhost'' (\<lambda>_. False) ()) \<and>
   live (run [SetGetToken (Some 1), Connect ''g1'', Connect ''g1'', TokenResolved 0 ''t'', Connect ''g1'',
      SockOpened 0, SockClosed 0, TimerFired 0, TokenResolved 0 ''t'']
      (constructor ''http:'' ''localhost'' (\<lambda>_. False) ())) \<le> 1 \<and>
   map sock_state (sockets (run [SetGetToken (Some 1), Connect ''g1'', Connect ''g1'',
      TokenResolved 0 ''t'', Connect ''g1'', SockOpened 0, SockClosed 0, TimerFired 0, TokenResolved 0 ''t'']
      (constructor ''http:'' ''localhost'' (\<lambda>_. False) ()))) = [CLOSED, CONNECTING]"
proof -
  define C where "C = (constructor ''http:'' ''localhost'' (\<lambda>_. False) () :: unit WebSocketService)"
  define A :: "unit action list" where "A = [SetGetToken (Some 1), Connect ''g1'', Connect ''g1'',
      TokenResolved 0 ''t'', Connect ''g1'', SockOpened 0, SockClosed 0, TimerFired 0, TokenResolved 0 ''t'']"
  define B :: "unit action list" where "B = [SetGetToken (Some 1), Connect ''g1'']"
  have 1: "list_all (\<lambda>a. \<not> lingering a) A" "list_all (\<lambda>a. \<not> lingering a) B"
    by (simp_all add: A_def B_def)
  have 2: "awaiting (run B C) = [''g1'']"
    by (simp add: B_def C_def constructor_def setGetToken_def connect_def isConnected_def)
  have 3: "map sock_state (sockets (run A C)) = [CLOSED, CONNECTING]"
    by (simp add: A_def C_def constructor_def setGetToken_def connect_def isConnected_def
        token_resolved_def open_socket_def wsUrl_def sock_opened_def set_state_def onopen_def emit_def
        sock_closed_def onclose_def attemptReconnect_def timer_fired_def Let_def)
  note t = connect_guard_keeps_one_handle [where p = "''http:''" and h = "''localhost''"
      and bad = "\<lambda>_. False" and w = "()" and g = "''g1''" and s = C, folded C_def]
  from t [where acts = A] 1 have 4: "live (run A C) \<le> 1"
    by blast
  from t [where acts = B] 1 2 have 5: "connect ''g1'' (run B C) = run B C"
    by simp
  show ?thesis
    using 1 2 3 4 5 unfolding A_def B_def C_def by simp
qed

text \<open>
  The claim as stated fails on a socket that lingers in \<open>CLOSING\<close>. The connection
  is open and its closing handshake starts; \<^verbatim>\<open>connect\<close> is called: the handle is
  not open and the flag is not set, so a second socket is created while the first is
  not closed yet. Then the first socket's \<^verbatim>\<open>close\<close> event resets the flag while
  the second socket is still connecting, and one more \<^verbatim>\<open>connect\<close> call creates a
  third socket beside it.
\<close>

theorem connect_guard_keeps_one_handle_counterexample:
  "live (run [Connect ''g1'', SockOpened 0, SockClosing 0, Connect ''g1'']
      (constructor ''http:'' ''localhost'' (\<lambda>_. False) ())) = 2 \<and>
   map sock_state (sockets (run [Connect ''g1'', SockOpened 0, SockClosing 0, Connect ''g1'', SockClosed 0]
      (constructor ''http:'' ''localhost'' (\<lambda>_. False) ()))) = [CLOSED, CONNECTING] \<and>
   map sock_state (sockets (connect ''g1''
      (run [Connect ''g1'', SockOpened 0, SockClosing 0, Connect ''g1'', SockClosed 0]
        (constructor ''http:'' ''localhost'' (\<lambda>_. False) ())))) = [CLOSED, CONNECTING, CONNECTING]"
proof -
  define S where "S = run [Connect ''g1'', SockOpened 0] (constructor ''http:'' ''localhost'' (\<lambda>_. False) ())"
  have a: "run [Connect ''g1'', SockOpened 0, SockClosing 0, Connect ''g1'']
             (constructor ''http:'' ''localhost'' (\<lambda>_. False) ()) = run [SockClosing 0, Connect ''g1''] S"
    "run [Connect ''g1'', SockOpened 0, SockClosing 0, Connect ''g1'', SockClosed 0]
             (constructor ''http:'' ''localhost'' (\<lambda>_. False) ()) =
       run [SockClosing 0, Connect ''g1'', SockClosed 0] S"
    unfolding S_def by simp_all
  have b: "connect ''g1'' (run [SockClosing 0, Connect ''g1'', SockClosed 0] S) =
           run [SockClosing 0, Connect ''g1'', SockClosed 0, Connect ''g1''] S"
    by simp
  note l = lingering_example [folded S_def]
  show ?thesis
    unfolding a b using l by (simp add: live_def)
qed


end
